theory Spec2Isabelle
  imports Complex_Main "HOL-Library.Multiset" "HOL-Library.Product_Lexorder"
begin

section \<open>Numbers and order-book levels\<close>

text \<open>
  The trader computes with Python floats. They are embedded as exact rationals: every
  arithmetic operation of the source is the exact operation on \<^typ>\<open>rat\<close>; infinities
  and NaN are outside the model. Where the rounding of the operations decides a property,
  the walker is given a second time with the rounding written out (\<open>walk_loop_fp\<close>). An order-book level is the JSON
  object \<^verbatim>\<open>{"price": ..., "size": ...}\<close>; a field holds the number that
  \<^verbatim>\<open>float(...)\<close> yields for it, or \<open>None\<close> when the key is absent. The field
  \<open>size_lvl\<close> is the key \<^verbatim>\<open>"size"\<close>.
\<close>

record level =
  price :: "rat option"
  size_lvl :: "rat option"

definition get_or :: "'a option \<Rightarrow> 'a \<Rightarrow> 'a" where
  \<comment> \<open>\<^verbatim>\<open>d.get(key, default)\<close> on a field that may be absent\<close>
  "get_or field dflt = (case field of None \<Rightarrow> dflt | Some v \<Rightarrow> v)"

section \<open>The book walker\<close>

text \<open>
  \<^verbatim>\<open>
  def walk_book(asks, usdc_budget):
      total_shares, total_cost, remaining = 0.0, 0.0, usdc_budget
      for order in sorted(asks, key=lambda x: float(x.get("price", 1))):
          price = float(order.get("price", 0))
          size  = float(order.get("size", 0))
          if price <= 0 or size <= 0:
              continue
          level_cost = price * size
          if level_cost <= remaining:
              total_shares += size
              total_cost   += level_cost
              remaining    -= level_cost
          else:
              total_shares += remaining / price
              total_cost   += remaining
              remaining = 0
              break
      return total_shares, total_cost
  \<close>
  The loop state is the triple (total_shares, total_cost, remaining); \<open>break\<close> returns the
  state without looking at the rest of the list. Python's \<open>sorted\<close> is stable, as
  \<^const>\<open>sort_key\<close> is.
\<close>

definition sort_price :: "level \<Rightarrow> rat" where
  "sort_price x = get_or (price x) 1"

fun walk_loop :: "level list \<Rightarrow> rat \<times> rat \<times> rat \<Rightarrow> rat \<times> rat \<times> rat" where
  "walk_loop [] st = st"
| "walk_loop (order # rest) (total_shares, total_cost, remaining) =
     (let p = get_or (price order) 0;
          s = get_or (size_lvl order) 0
      in if p \<le> 0 \<or> s \<le> 0 then walk_loop rest (total_shares, total_cost, remaining)
         else let level_cost = p * s
              in if level_cost \<le> remaining
                 then walk_loop rest (total_shares + s, total_cost + level_cost, remaining - level_cost)
                 else (total_shares + remaining / p, total_cost + remaining, 0))"

definition walk_book :: "level list \<Rightarrow> rat \<Rightarrow> rat \<times> rat" where
  "walk_book asks usdc_budget =
     (case walk_loop (sort_key sort_price asks) (0, 0, usdc_budget) of
        (total_shares, total_cost, remaining) \<Rightarrow> (total_shares, total_cost))"


section \<open>The walker under rounding\<close>

text \<open>
  The same loop with the result of every arithmetic operation passed through a rounding
  function \<open>rnd\<close>, in the order the source computes them. For Python's floats \<open>rnd\<close> is
  \<open>binary64\<close>: the nearest IEEE 754 double, ties to the even significand; overflow and
  the subnormal range are outside it. \<open>exponent x\<close> is the integer part of the binary
  logarithm of \<open>\<bar>x\<bar>\<close>. With \<open>rnd\<close> the identity the loop is \<open>walk_loop\<close>.
\<close>

definition round_half_even :: "rat \<Rightarrow> int" where
  \<comment> \<open>the nearest integer, a tie going to the even one\<close>
  "round_half_even x =
     (let f = \<lfloor>x\<rfloor>; d = x - of_int f
      in if d < 1 / 2 then f else if 1 / 2 < d then f + 1
         else if even f then f else f + 1)"

function bit_length :: "int \<Rightarrow> nat" where
  "bit_length n = (if n \<le> 0 then 0 else Suc (bit_length (n div 2)))"
  by pat_completeness auto
termination
  by (relation "measure nat") auto

declare bit_length.simps [simp del]

definition exponent :: "rat \<Rightarrow> int" where
  "exponent x =
     (let y = \<bar>x\<bar>
      in if 1 \<le> y then int (bit_length \<lfloor>y\<rfloor>) - 1
         else (let m = bit_length \<lfloor>1 / y\<rfloor> - 1
               in if 1 / y = 2 ^ m then - int m else - int m - 1))"

definition pow2 :: "int \<Rightarrow> rat" where
  "pow2 e = (if 0 \<le> e then 2 ^ nat e else 1 / 2 ^ nat (- e))"

definition binary64 :: "rat \<Rightarrow> rat" where
  "binary64 x =
     (if x = 0 then 0
      else let ulp = pow2 (exponent x - 52)
           in of_int (round_half_even (x / ulp)) * ulp)"

fun walk_loop_fp :: "(rat \<Rightarrow> rat) \<Rightarrow> level list \<Rightarrow> rat \<times> rat \<times> rat \<Rightarrow> rat \<times> rat \<times> rat" where
  "walk_loop_fp rnd [] st = st"
| "walk_loop_fp rnd (order # rest) (total_shares, total_cost, remaining) =
     (let p = get_or (price order) 0;
          s = get_or (size_lvl order) 0
      in if p \<le> 0 \<or> s \<le> 0 then walk_loop_fp rnd rest (total_shares, total_cost, remaining)
         else let level_cost = rnd (p * s)
              in if level_cost \<le> remaining
                 then walk_loop_fp rnd rest
                        (rnd (total_shares + s), rnd (total_cost + level_cost),
                         rnd (remaining - level_cost))
                 else (rnd (total_shares + rnd (remaining / p)), rnd (total_cost + remaining), 0))"

definition walk_book_fp :: "(rat \<Rightarrow> rat) \<Rightarrow> level list \<Rightarrow> rat \<Rightarrow> rat \<times> rat" where
  "walk_book_fp rnd asks usdc_budget =
     (case walk_loop_fp rnd (sort_key sort_price asks) (0, 0, usdc_budget) of
        (total_shares, total_cost, remaining) \<Rightarrow> (total_shares, total_cost))"


section \<open>Slippage and policy\<close>

text \<open>
  The settings the engine reads from the module-level \<^verbatim>\<open>cfg\<close>, with the types the
  schema declares for them.
\<close>

record config =
  default_size :: rat
  order_type :: string
  slippage_warn :: rat
  slippage_block :: rat
  min_time_remaining :: int
  sig_type :: int

definition default_config :: config where
  "default_config = \<lparr> default_size = 25, order_type = ''GTC'', slippage_warn = 3,
     slippage_block = 5, min_time_remaining = 30, sig_type = 1 \<rparr>"

datatype py_error = KeyError string | ValueError string | TypeError string

text \<open>
  What \<^verbatim>\<open>fetch_book\<close> hands back: a falsy value (\<open>NoResponse\<close>), an object with a truthy
  \<^verbatim>\<open>"error"\<close> entry, or a book whose \<^verbatim>\<open>asks\<close> and \<^verbatim>\<open>bids\<close> default to the
  empty list.
\<close>

datatype book_response = NoResponse | ErrorEnvelope string | Book "level list" "level list"

text \<open>
  The three warning texts, with the numbers they interpolate:
  \<^verbatim>\<open>BLOCKED: slippage {slippage}% exceeds limit {limit}%. Use --force to override.\<close>,
  \<^verbatim>\<open>High slippage: {slippage}%. Consider smaller size.\<close> and
  \<^verbatim>\<open>Insufficient liquidity. Max fillable: ${cost:.2f}\<close>.
\<close>

datatype warning = Blocked rat rat | HighSlippage rat | InsufficientLiquidity rat

record fill_estimate =
  best_ask :: "rat option"
  best_bid :: "rat option"
  ask_depth :: rat
  shares :: rat
  actual_cost :: rat
  avg_price :: "rat option"
  slippage_pct :: rat
  warnings :: "warning list"
  blocked :: bool

definition py_round :: "rat \<Rightarrow> nat \<Rightarrow> rat" where
  \<comment> \<open>\<^verbatim>\<open>round(x, n)\<close>: to \<open>n\<close> decimals, ties to even\<close>
  "py_round x n = of_int (round_half_even (x * 10 ^ n)) / 10 ^ n"

definition first_price :: "level list \<Rightarrow> py_error + rat option" where
  \<comment> \<open>\<^verbatim>\<open>float(xs[0]["price"]) if xs else None\<close>\<close>
  "first_price xs =
     (case xs of [] \<Rightarrow> Inr None
      | x # _ \<Rightarrow> (case price x of None \<Rightarrow> Inl (KeyError ''price'') | Some p \<Rightarrow> Inr (Some p)))"

fun depth_sum :: "level list \<Rightarrow> py_error + rat" where
  \<comment> \<open>\<^verbatim>\<open>sum(float(o["price"]) * float(o["size"]) for o in asks)\<close>\<close>
  "depth_sum [] = Inr 0"
| "depth_sum (x # xs) =
     (case price x of None \<Rightarrow> Inl (KeyError ''price'')
      | Some p \<Rightarrow>
         (case size_lvl x of None \<Rightarrow> Inl (KeyError ''size'')
          | Some s \<Rightarrow> (case depth_sum xs of Inl e \<Rightarrow> Inl e | Inr d \<Rightarrow> Inr (p * s + d))))"

fun slippage_of :: "rat option \<Rightarrow> rat option \<Rightarrow> rat" where
  \<comment> \<open>\<open>0.0\<close> unless both operands are truthy: present and not zero\<close>
  "slippage_of (Some b) (Some a) =
     (if b \<noteq> 0 \<and> a \<noteq> 0 then py_round (((a - b) / b) * 100) 2 else 0)"
| "slippage_of _ _ = 0"

definition policy_warnings :: "config \<Rightarrow> rat \<Rightarrow> rat \<Rightarrow> rat \<Rightarrow> warning list" where
  "policy_warnings cfg slippage cost usdc_size =
     (if slippage_block cfg < slippage then [Blocked slippage (slippage_block cfg)]
      else if slippage_warn cfg < slippage then [HighSlippage slippage]
      else [])
     @ (if cost < usdc_size * (99 / 100) then [InsufficientLiquidity cost] else [])"

definition estimate :: "config \<Rightarrow> level list \<Rightarrow> rat option \<Rightarrow> rat option \<Rightarrow> rat \<Rightarrow> rat
    \<Rightarrow> fill_estimate" where
  \<comment> \<open>the body of \<open>analyze_book\<close> after the three reads that can raise\<close>
  "estimate cfg asks b_ask b_bid depth usdc_size =
     (case walk_book asks usdc_size of
        (sh, cost) \<Rightarrow>
          let avg = (if 0 < sh then Some (cost / sh) else None);
              slippage = slippage_of b_ask avg
          in \<lparr> best_ask = b_ask,
               best_bid = b_bid,
               ask_depth = py_round depth 2,
               shares = py_round sh 4,
               actual_cost = py_round cost 4,
               avg_price = (case avg of None \<Rightarrow> None
                            | Some a \<Rightarrow> if a \<noteq> 0 then Some (py_round a 4) else None),
               slippage_pct = slippage,
               warnings = policy_warnings cfg slippage cost usdc_size,
               blocked = (slippage_block cfg < slippage) \<rparr>)"

definition analyze_book :: "config \<Rightarrow> (string \<Rightarrow> book_response) \<Rightarrow> string \<Rightarrow> rat
    \<Rightarrow> py_error + (fill_estimate option \<times> string option)" where
  \<comment> \<open>the pair is the returned \<open>(result, error message)\<close>; \<open>Inl\<close> is a raised exception\<close>
  "analyze_book cfg fetch_book token_id usdc_size =
     (case fetch_book token_id of
        NoResponse \<Rightarrow> Inr (None, Some ''CLOB error: no response'')
      | ErrorEnvelope e \<Rightarrow> Inr (None, Some (''CLOB error: '' @ e))
      | Book asks bids \<Rightarrow>
         (case first_price asks of Inl e \<Rightarrow> Inl e
          | Inr b_ask \<Rightarrow>
             (case first_price bids of Inl e \<Rightarrow> Inl e
              | Inr b_bid \<Rightarrow>
                 (case depth_sum asks of Inl e \<Rightarrow> Inl e
                  | Inr depth \<Rightarrow>
                      Inr (Some (estimate cfg asks b_ask b_bid depth usdc_size), None)))))"


section \<open>Market discovery\<close>

text \<open>
  A market object of the listings reply, reduced to the entries \<open>discover\<close> reads. Library
  calls are taken at their result:
  \<^item> \<open>end_date\<close> is what \<^verbatim>\<open>datetime.fromisoformat\<close> makes of the first truthy of
    \<^verbatim>\<open>endDate\<close> and \<^verbatim>\<open>end_date_iso\<close>: it raises (\<open>NoDate\<close>), or yields an instant
    without zone (\<open>Naive\<close>) or with one (\<open>Aware\<close>, together with its \<^verbatim>\<open>strftime\<close> text);
  \<^item> \<open>clobTokenIds\<close> is absent or falsy (\<open>IdsAbsent\<close>), a list, or a string that
    \<^verbatim>\<open>json.loads\<close> turns into a list (\<open>Some\<close>) or rejects (\<open>None\<close>);
  \<^item> \<open>outcomes\<close> lists, per outcome object, its \<^verbatim>\<open>clobTokenId\<close> entry if it has one;
  \<^item> the two liquidity entries hold the number \<^verbatim>\<open>float(...)\<close> yields.
  Strings are byte strings, and \<open>lower\<close> and \<open>upper\<close> change ASCII letters only.
\<close>

datatype end_date = NoDate | Naive rat | Aware rat string

datatype token_ids = IdsAbsent | IdsList "string list" | IdsText "string list option"

record market =
  question :: "string option"
  title :: "string option"
  end_date :: end_date
  clobTokenIds :: token_ids
  outcomes :: "string option list"
  liquidityClob :: "rat option"
  liquidity :: "rat option"

datatype gamma_response = GammaError string | Markets "market list"

record market_window =
  win_title :: "string option"
  yes_token :: string
  no_token :: string
  end_time :: string
  seconds_remaining :: int
  win_liquidity :: rat

definition SEARCH_STR :: string where
  "SEARCH_STR = ''bitcoin price 5''"

definition lower_char :: "char \<Rightarrow> char" where
  "lower_char c =
     get_or (map_of (zip ''ABCDEFGHIJKLMNOPQRSTUVWXYZ'' ''abcdefghijklmnopqrstuvwxyz'') c) c"

definition upper_char :: "char \<Rightarrow> char" where
  "upper_char c =
     get_or (map_of (zip ''abcdefghijklmnopqrstuvwxyz'' ''ABCDEFGHIJKLMNOPQRSTUVWXYZ'') c) c"

definition lower :: "string \<Rightarrow> string" where
  "lower s = map lower_char s"

definition upper :: "string \<Rightarrow> string" where
  "upper s = map upper_char s"

fun contains :: "string \<Rightarrow> string \<Rightarrow> bool" where
  \<comment> \<open>\<^verbatim>\<open>needle in hay\<close>\<close>
  "contains needle [] = (needle = [])"
| "contains needle (c # cs) = (take (length needle) (c # cs) = needle \<or> contains needle cs)"

definition or_str :: "string option \<Rightarrow> string option \<Rightarrow> string option" where
  \<comment> \<open>\<^verbatim>\<open>a or b\<close> on entries that are absent, null or strings\<close>
  "or_str a b = (case a of Some (c # cs) \<Rightarrow> a | _ \<Rightarrow> b)"

definition or_float :: "rat option \<Rightarrow> rat option \<Rightarrow> rat option" where
  "or_float a b = (case a of Some x \<Rightarrow> if x \<noteq> 0 then a else b | None \<Rightarrow> b)"

definition market_text :: "market \<Rightarrow> string" where
  \<comment> \<open>\<^verbatim>\<open>(m.get("question") or m.get("title") or "").lower()\<close>\<close>
  "market_text m = lower (get_or (or_str (or_str (question m) (title m)) (Some [])) [])"

definition end_ts :: "market \<Rightarrow> nat \<times> rat" where
  \<comment> \<open>the sort key; \<open>(1, 0)\<close> stands for \<^verbatim>\<open>float("inf")\<close>, above every \<open>(0, t)\<close>\<close>
  "end_ts m = (case end_date m of NoDate \<Rightarrow> (1, 0) | Naive t \<Rightarrow> (0, t) | Aware t lbl \<Rightarrow> (0, t))"

definition extract_ids :: "market \<Rightarrow> string list" where
  "extract_ids m =
     (let ids = (case clobTokenIds m of
                   IdsAbsent \<Rightarrow> []
                 | IdsList l \<Rightarrow> l
                 | IdsText parsed \<Rightarrow> (case parsed of None \<Rightarrow> [] | Some l \<Rightarrow> l))
      in if length ids < 2 then map (\<lambda>outcome. get_or outcome []) (outcomes m) else ids)"

definition py_int :: "rat \<Rightarrow> int" where
  \<comment> \<open>\<^verbatim>\<open>int(x)\<close> of a float: truncation towards zero\<close>
  "py_int x = (if 0 \<le> x then \<lfloor>x\<rfloor> else \<lceil>x\<rceil>)"

definition window_clock :: "market \<Rightarrow> rat \<Rightarrow> int \<times> string" where
  \<comment> \<open>\<open>(secs, end_str)\<close>; subtracting the aware \<open>now\<close> from a naive instant raises, which the
      \<open>except\<close> clause turns into the sentinel as well\<close>
  "window_clock m now =
     (case end_date m of
        Aware t lbl \<Rightarrow> (max 0 (py_int (t - now)), lbl)
      | _ \<Rightarrow> (999, ''unknown''))"

definition discover :: "gamma_response \<Rightarrow> rat \<Rightarrow> market_window option \<times> string option" where
  "discover reply now =
     (case reply of
        GammaError e \<Rightarrow> (None, Some (''Gamma API error: '' @ e))
      | Markets markets \<Rightarrow>
         (case sort_key end_ts (filter (\<lambda>m. contains SEARCH_STR (market_text m)) markets) of
            [] \<Rightarrow> (None, Some ''No active Bitcoin 5-Min market found. Market may be between windows.'')
          | m # _ \<Rightarrow>
             (let ids = extract_ids m
              in if length ids < 2 \<or> ids ! 0 = []
                 then (None, Some ''Could not extract tokenIDs from market data'')
                 else (case window_clock m now of
                         (secs, end_str) \<Rightarrow>
                           (Some \<lparr> win_title = or_str (question m) (title m),
                                   yes_token = ids ! 0,
                                   no_token = ids ! 1,
                                   end_time = end_str,
                                   seconds_remaining = secs,
                                   win_liquidity =
                                     get_or (or_float (or_float (liquidityClob m) (liquidity m)) (Some 0)) 0 \<rparr>,
                            None)))))"


section \<open>The run\<close>

text \<open>
  \<open>run\<close> talks to the outside through \<open>discover\<close>, \<open>fetch_book\<close> and the trading client.
  The \<open>world\<close> holds what each of these calls returns; the model of \<open>run\<close> returns the
  calls made, in order, and how the run ended. Printing is left to the \<open>outcome\<close>.
  \<open>client_ready\<close> is false when \<open>get_client\<close> leaves through \<^verbatim>\<open>sys.exit(1)\<close>;
  \<open>post_reply\<close> is \<open>None\<close> when placing the order raises.
\<close>

record args =
  arg_config :: bool
  arg_orders :: bool
  arg_cancel :: "string option"
  arg_side :: "string option"
  arg_price :: "rat option"
  arg_size :: "rat option"
  arg_type :: "string option"
  arg_force :: bool
  arg_live :: bool
  arg_book :: bool

record order_reply =
  orderID :: "string option"
  reply_id :: "string option"
  status :: "string option"
  errorMsg :: "string option"

record world =
  gamma_reply :: gamma_response
  now :: rat
  clob_book :: "string \<Rightarrow> book_response"
  client_ready :: bool
  orders_reply :: "string + nat"
  cancel_reply :: "string \<Rightarrow> string option"
  post_reply :: "order_reply option"

datatype event =
    Discover
  | FetchBook string
  | GetClient
  | ListOrders
  | CancelOrder string
  | PlaceGTC string string rat rat
  | PlaceFOK string string rat

datatype outcome =
    ConfigShown
  | OrdersListed nat
  | OrdersFailed string
  | OrderCancelled string
  | CancelFailed string
  | DiscoveryFailed string
  | WindowTooShort int int
  | BookFailed string
  | SlippageBlocked
  | BookShown
  | GtcNeedsPrice
  | DryRun
  | OrderFailed
  | OrderDone string
  | UnexpectedStatus string
  | Exit1
  | Raised py_error

definition execute :: "config \<Rightarrow> world \<Rightarrow> args \<Rightarrow> string \<Rightarrow> string \<Rightarrow> rat
    \<Rightarrow> event list \<times> outcome" where
  \<comment> \<open>phase 3 of \<open>run\<close>\<close>
  "execute cfg w a token side usdc =
     (let otype = upper (get_or (or_str (arg_type a) (Some (order_type cfg))) [])
      in if otype = ''GTC'' \<and> or_float (arg_price a) None = None then ([], GtcNeedsPrice)
         else if \<not> arg_live a then ([], DryRun)
         else if \<not> client_ready w then ([GetClient], Exit1)
         else let call = (if otype = ''GTC'' then PlaceGTC token side (get_or (arg_price a) 0) usdc
                          else PlaceFOK token side usdc)
              in (case post_reply w of
                    None \<Rightarrow> ([GetClient, call], OrderFailed)
                  | Some resp \<Rightarrow>
                      (let st = get_or (status resp) ''UNKNOWN''
                       in ([GetClient, call],
                           if st = ''MATCHED'' \<or> st = ''LIVE'' then OrderDone st
                           else UnexpectedStatus st))))"

definition price_and_trade :: "config \<Rightarrow> world \<Rightarrow> args \<Rightarrow> market_window \<Rightarrow> event list \<times> outcome" where
  \<comment> \<open>phase 2 of \<open>run\<close>, then phase 3\<close>
  "price_and_trade cfg w a mkt =
     (let side = upper (get_or (or_str (arg_side a) (Some ''BUY'')) []);
          token = (if side = ''BUY'' then yes_token mkt else no_token mkt);
          usdc = get_or (or_float (arg_size a) (Some (default_size cfg))) 0
      in case analyze_book cfg (clob_book w) token usdc of
           Inl e \<Rightarrow> ([FetchBook token], Raised e)
         | Inr (res, berr) \<Rightarrow>
            (case or_str berr None of
               Some msg \<Rightarrow> ([FetchBook token], BookFailed msg)
             | None \<Rightarrow>
                (case res of
                   None \<Rightarrow> ([FetchBook token], Raised (TypeError ''book''))
                 | Some book \<Rightarrow>
                     if blocked book \<and> \<not> arg_force a then ([FetchBook token], SlippageBlocked)
                     else if arg_book a then ([FetchBook token], BookShown)
                     else (case execute cfg w a token side usdc of
                             (evs, out) \<Rightarrow> (FetchBook token # evs, out)))))"

definition run :: "config \<Rightarrow> world \<Rightarrow> args \<Rightarrow> event list \<times> outcome" where
  "run cfg w a =
     (if arg_config a then ([], ConfigShown)
      else if arg_orders a then
        (if \<not> client_ready w then ([GetClient], Exit1)
         else case orders_reply w of
                Inl err \<Rightarrow> ([GetClient, ListOrders], OrdersFailed err)
              | Inr n \<Rightarrow> ([GetClient, ListOrders], OrdersListed n))
      else case or_str (arg_cancel a) None of
        Some oid \<Rightarrow>
          (if \<not> client_ready w then ([GetClient], Exit1)
           else case cancel_reply w oid of
                  Some err \<Rightarrow> ([GetClient, CancelOrder oid], CancelFailed err)
                | None \<Rightarrow> ([GetClient, CancelOrder oid], OrderCancelled oid))
      | None \<Rightarrow>
          (case discover (gamma_reply w) (now w) of
             (res, err) \<Rightarrow>
               (case or_str err None of
                  Some msg \<Rightarrow> ([Discover], DiscoveryFailed msg)
                | None \<Rightarrow>
                   (case res of
                      None \<Rightarrow> ([Discover], Raised (TypeError ''market''))
                    | Some mkt \<Rightarrow>
                        if seconds_remaining mkt < min_time_remaining cfg
                        then ([Discover],
                              WindowTooShort (seconds_remaining mkt) (min_time_remaining cfg))
                        else (case price_and_trade cfg w a mkt of
                                (evs, out) \<Rightarrow> (Discover # evs, out))))))"

section \<open>Configuration file\<close>

text \<open>
  Values of the configuration are JSON scalars. The file on disk is absent, holds text
  that \<^verbatim>\<open>json.loads\<close> rejects, or holds an object; \<^verbatim>\<open>json.dumps\<close> followed by
  \<^verbatim>\<open>json.loads\<close> gives the object back. The conversions \<^verbatim>\<open>float(...)\<close> and
  \<^verbatim>\<open>int(...)\<close> of a string belong to the language, not to this program: they are
  a parameter, \<open>None\<close> where they raise \<^verbatim>\<open>ValueError\<close>.
\<close>

datatype jvalue = JInt int | JFloat rat | JStr string

datatype ctype = TFloat | TStr | TInt

record setting =
  dflt :: jvalue
  env_name :: string
  ty :: ctype

record conversions =
  to_float :: "string \<Rightarrow> rat option"
  to_int :: "string \<Rightarrow> int option"

datatype config_file = Missing | Garbled | Json "string \<rightharpoonup> jvalue"

datatype exit_state = Exit nat | Crash py_error

definition CONFIG_SCHEMA :: "(string \<times> setting) list" where
  "CONFIG_SCHEMA =
     [(''default_size'', \<lparr> dflt = JFloat 25, env_name = ''POLY_DEFAULT_SIZE'', ty = TFloat \<rparr>),
      (''order_type'', \<lparr> dflt = JStr ''GTC'', env_name = ''POLY_ORDER_TYPE'', ty = TStr \<rparr>),
      (''slippage_warn'', \<lparr> dflt = JFloat 3, env_name = ''POLY_SLIPPAGE_WARN'', ty = TFloat \<rparr>),
      (''slippage_block'', \<lparr> dflt = JFloat 5, env_name = ''POLY_SLIPPAGE_BLOCK'', ty = TFloat \<rparr>),
      (''min_time_remaining'', \<lparr> dflt = JInt 30, env_name = ''POLY_MIN_TIME'', ty = TInt \<rparr>),
      (''sig_type'', \<lparr> dflt = JInt 1, env_name = ''POLY_SIG_TYPE'', ty = TInt \<rparr>)]"

definition coerce :: "conversions \<Rightarrow> ctype \<Rightarrow> string \<Rightarrow> jvalue option" where
  \<comment> \<open>\<^verbatim>\<open>spec["type"](raw)\<close>\<close>
  "coerce conv t raw =
     (case t of
        TFloat \<Rightarrow> map_option JFloat (to_float conv raw)
      | TInt \<Rightarrow> map_option JInt (to_int conv raw)
      | TStr \<Rightarrow> Some (JStr raw))"

definition read_json :: "config_file \<Rightarrow> (string \<rightharpoonup> jvalue)" where
  \<comment> \<open>the object in the file, \<^verbatim>\<open>{}\<close> when there is no file or it does not parse\<close>
  "read_json f = (case f of Json m \<Rightarrow> m | _ \<Rightarrow> Map.empty)"

definition load_setting :: "conversions \<Rightarrow> (string \<rightharpoonup> jvalue) \<Rightarrow> (string \<rightharpoonup> string)
    \<Rightarrow> string \<Rightarrow> setting \<Rightarrow> jvalue" where
  "load_setting conv file_cfg env k spec =
     (case file_cfg k of
        Some v \<Rightarrow> v
      | None \<Rightarrow>
         (if env_name spec \<noteq> [] \<and> or_str (env (env_name spec)) None \<noteq> None
          then (case coerce conv (ty spec) (get_or (env (env_name spec)) []) of
                  Some v \<Rightarrow> v
                | None \<Rightarrow> dflt spec)
          else dflt spec))"

definition load_config :: "conversions \<Rightarrow> config_file \<Rightarrow> (string \<rightharpoonup> string) \<Rightarrow> (string \<rightharpoonup> jvalue)" where
  "load_config conv f env =
     map_of (map (\<lambda>(k, spec). (k, load_setting conv (read_json f) env k spec)) CONFIG_SCHEMA)"

definition update_config :: "(string \<rightharpoonup> jvalue) \<Rightarrow> config_file \<Rightarrow> config_file \<times> (string \<rightharpoonup> jvalue)" where
  \<comment> \<open>the file as written, and the returned object\<close>
  "update_config updates f = (let existing = read_json f ++ updates in (Json existing, existing))"

fun split_eq :: "string \<Rightarrow> (string \<times> string) option" where
  \<comment> \<open>\<^verbatim>\<open>item.split("=", 1)\<close>, \<open>None\<close> when \<^verbatim>\<open>"=" not in item\<close>\<close>
  "split_eq [] = None"
| "split_eq (c # cs) =
     (if c = CHR ''='' then Some ([], cs)
      else (case split_eq cs of None \<Rightarrow> None | Some (k, v) \<Rightarrow> Some (c # k, v)))"

fun collect_updates :: "conversions \<Rightarrow> string list \<Rightarrow> (string \<rightharpoonup> jvalue)
    \<Rightarrow> exit_state + (string \<rightharpoonup> jvalue)" where
  "collect_updates conv [] updates = Inr updates"
| "collect_updates conv (item # rest) updates =
     (case split_eq item of
        None \<Rightarrow> Inl (Exit 1)
      | Some (k, v) \<Rightarrow>
         (case map_of CONFIG_SCHEMA k of
            None \<Rightarrow> Inl (Exit 1)
          | Some spec \<Rightarrow>
             (case coerce conv (ty spec) v of
                None \<Rightarrow> Inl (Crash (ValueError v))
              | Some x \<Rightarrow> collect_updates conv rest (updates(k \<mapsto> x)))))"

definition main_set :: "conversions \<Rightarrow> string list \<Rightarrow> config_file \<Rightarrow> exit_state \<times> config_file" where
  \<comment> \<open>the \<^verbatim>\<open>if args.set:\<close> block, entered with a non-empty list of items; the result is
      how the process ends and the file it leaves\<close>
  "main_set conv items f =
     (case collect_updates conv items Map.empty of
        Inl t \<Rightarrow> (t, f)
      | Inr updates \<Rightarrow> (Exit 0, fst (update_config updates f)))"

text \<open>One instance of the conversions: unsigned decimal numerals.\<close>

definition digit_val :: "char \<Rightarrow> nat option" where
  "digit_val c = (let n = (of_char c :: nat) in if 48 \<le> n \<and> n \<le> 57 then Some (n - 48) else None)"

fun digits_val :: "string \<Rightarrow> nat \<Rightarrow> nat option" where
  "digits_val [] acc = Some acc"
| "digits_val (c # cs) acc =
     (case digit_val c of None \<Rightarrow> None | Some d \<Rightarrow> digits_val cs (10 * acc + d))"

definition decimal :: "string \<Rightarrow> nat option" where
  "decimal s = (if s = [] then None else digits_val s 0)"

definition decimal_conversions :: conversions where
  "decimal_conversions =
     \<lparr> to_float = (\<lambda>s. map_option of_nat (decimal s)),
       to_int = (\<lambda>s. map_option int (decimal s)) \<rparr>"


section \<open>Notions the properties are stated with\<close>

definition well_formed :: "level \<Rightarrow> bool" where
  \<comment> \<open>a level the walker does not skip: price and size present and positive\<close>
  "well_formed x = (0 < get_or (price x) 0 \<and> 0 < get_or (size_lvl x) 0)"

definition level_cost :: "level \<Rightarrow> rat" where
  "level_cost x = get_or (price x) 0 * get_or (size_lvl x) 0"

definition notional :: "level list \<Rightarrow> rat" where
  \<comment> \<open>total depth: the sum of price times size over the levels\<close>
  "notional xs = sum_list (map level_cost xs)"

definition total_size :: "level list \<Rightarrow> rat" where
  "total_size xs = sum_list (map (\<lambda>x. get_or (size_lvl x) 0) xs)"

definition example_asks :: "level list" where
  \<comment> \<open>asks (0.50, 20) and (0.55, 30)\<close>
  "example_asks = [\<lparr>price = Some (1 / 2), size_lvl = Some 20\<rparr>, \<lparr>price = Some (11 / 20), size_lvl = Some 30\<rparr>]"

definition descending_asks :: "level list" where
  \<comment> \<open>the same two levels, dearest first\<close>
  "descending_asks = [\<lparr>price = Some (11 / 20), size_lvl = Some 30\<rparr>, \<lparr>price = Some (1 / 2), size_lvl = Some 20\<rparr>]"

definition walked_price :: "level \<Rightarrow> rat" where
  \<comment> \<open>the price the loop reads from a level\<close>
  "walked_price x = get_or (price x) 0"

definition double_level :: "rat \<Rightarrow> rat \<Rightarrow> level" where
  \<comment> \<open>the level whose price and size are the doubles nearest to the given numbers\<close>
  "double_level p s = \<lparr>price = Some (binary64 p), size_lvl = Some (binary64 s)\<rparr>"

definition dime_small_first :: "level list" where
  \<comment> \<open>asks (0.1, 1) and (0.1, 19), as doubles\<close>
  "dime_small_first = [double_level (1 / 10) 1, double_level (1 / 10) 19]"

definition dime_large_first :: "level list" where
  "dime_large_first = [double_level (1 / 10) 19, double_level (1 / 10) 1]"

definition double_asks :: "level list" where
  \<comment> \<open>asks (0.50, 20) and (0.55, 30), as doubles\<close>
  "double_asks = [double_level (1 / 2) 20, double_level (11 / 20) 30]"

definition double_asks_rev :: "level list" where
  "double_asks_rev = [double_level (11 / 20) 30, double_level (1 / 2) 20]"

definition example_bids :: "level list" where
  \<comment> \<open>one bid, (0.45, 10), below every ask of the examples\<close>
  "example_bids = [\<lparr>price = Some (9 / 20), size_lvl = Some 10\<rparr>]"

definition crossed :: "level list \<Rightarrow> level list \<Rightarrow> bool" where
  \<comment> \<open>some bid is priced at or above some ask\<close>
  "crossed asks bids =
     list_ex (\<lambda>a. list_ex (\<lambda>b. get_or (price a) 0 \<le> get_or (price b) 0) bids) asks"

fun is_blocked_warning :: "warning \<Rightarrow> bool" where
  "is_blocked_warning (Blocked s l) = True"
| "is_blocked_warning _ = False"

fun is_liquidity_warning :: "warning \<Rightarrow> bool" where
  "is_liquidity_warning (InsufficientLiquidity c) = True"
| "is_liquidity_warning _ = False"

definition two_id_market :: market where
  \<comment> \<open>a market whose token list holds an empty second identifier\<close>
  "two_id_market = \<lparr> question = Some ''Bitcoin Price 5 Min: up or down?'', title = None,
     end_date = Aware 1010 ''12:05:00 UTC'', clobTokenIds = IdsList [''123'', []],
     outcomes = [], liquidityClob = Some 1500, liquidity = None \<rparr>"

definition outcome_market :: market where
  \<comment> \<open>a market whose token list does not parse and whose second outcome has no identifier\<close>
  "outcome_market = \<lparr> question = None, title = Some ''BITCOIN PRICE 5 MIN'',
     end_date = NoDate, clobTokenIds = IdsText None,
     outcomes = [Some ''123'', None], liquidityClob = None, liquidity = None \<rparr>"

definition closing_world :: world where
  \<comment> \<open>the window closes in 10 seconds\<close>
  "closing_world = \<lparr> gamma_reply = Markets [two_id_market], now = 1000,
     clob_book = (\<lambda>t. Book example_asks []), client_ready = True,
     orders_reply = Inr 0, cancel_reply = (\<lambda>oid. None), post_reply = None \<rparr>"

definition open_world :: world where
  \<comment> \<open>the window closes in 110 seconds\<close>
  "open_world = \<lparr> gamma_reply = Markets [two_id_market], now = 900,
     clob_book = (\<lambda>t. Book example_asks []), client_ready = True,
     orders_reply = Inr 0, cancel_reply = (\<lambda>oid. None), post_reply = None \<rparr>"

definition plain_args :: args where
  \<comment> \<open>\<^verbatim>\<open>--side BUY --size 100 --type FOK\<close>, a dry run\<close>
  "plain_args = \<lparr> arg_config = False, arg_orders = False, arg_cancel = None,
     arg_side = Some ''BUY'', arg_price = None, arg_size = Some 100, arg_type = Some ''FOK'',
     arg_force = False, arg_live = False, arg_book = False \<rparr>"

section \<open>The walker skips malformed levels\<close>

lemma walk_loop_skip:
  "\<not> well_formed x \<Longrightarrow> walk_loop (x # xs) st = walk_loop xs st"
  by (cases st) (auto simp: well_formed_def Let_def)

lemma walk_loop_filter:
  "walk_loop (filter well_formed xs) st = walk_loop xs st"
proof (induction xs arbitrary: st)
  case Nil
  show ?case by simp
next
  case (Cons x xs)
  show ?case
  proof (cases "well_formed x")
    case False
    then show ?thesis using Cons.IH by (simp add: walk_loop_skip)
  next
    case True
    obtain sh c r where st: "st = (sh, c, r)" by (cases st)
    show ?thesis using True Cons.IH by (simp add: st Let_def)
  qed
qed

text \<open>
  C5. For every list of ask levels and every budget, \<open>walk_book\<close> returns the same shares
  and cost on the list as on the list without the levels whose price or size is not
  positive.
\<close>

theorem walk_book_skips_malformed:
  "walk_book (filter well_formed asks) usdc_budget = walk_book asks usdc_budget"
  by (simp add: walk_book_def filter_sort [symmetric] walk_loop_filter)

section \<open>The walker does not depend on the order of the levels\<close>

lemma walk_loop_swap:
  assumes "sort_price a = sort_price b"
  shows "walk_loop (a # b # rest) st = walk_loop (b # a # rest) st"
proof -
  obtain sh c r where st: "st = (sh, c, r)" by (cases st)
  consider "\<not> well_formed a" | "\<not> well_formed b" | "well_formed a" "well_formed b" by blast
  then show ?thesis
  proof cases
    case 1
    then show ?thesis
      by (auto simp: st Let_def well_formed_def)
  next
    case 2
    then show ?thesis
      by (auto simp: st Let_def well_formed_def)
  next
    case 3
    then obtain p sa sb where a: "price a = Some p" "size_lvl a = Some sa" 
       and b: "price b = Some p" "size_lvl b = Some sb" and pos: "0 < p" "0 < sa" "0 < sb"
      using assms by (auto simp: well_formed_def get_or_def sort_price_def split: option.splits)
    have m: "0 < p * sa" "0 < p * sb" using pos by simp_all
    show ?thesis
    proof (cases "p * sa + p * sb \<le> r")
      case True
      then have "p * sa \<le> r" "p * sb \<le> r" "p * sb \<le> r - p * sa" "p * sa \<le> r - p * sb"
        using m by linarith+
      then show ?thesis using pos
        by (simp add: st a b get_or_def Let_def algebra_simps)
    next
      case False
      have e1: "sh + sa + (r - p * sa) / p = sh + r / p" using pos by (simp add: field_simps)
      have e2: "sh + sb + (r - p * sb) / p = sh + r / p" using pos by (simp add: field_simps)
      have c1: "c + p * sa + (r - p * sa) = c + r" "c + p * sb + (r - p * sb) = c + r" by simp_all
      have n: "\<not> p * sb \<le> r - p * sa" "\<not> p * sa \<le> r - p * sb" using False by linarith+
      have l: "walk_loop (a # b # rest) (sh, c, r) = (sh + r / p, c + r, 0)"
        using pos n by (simp add: a b get_or_def Let_def e1 c1 del: add_diff_eq diff_add_eq)
      have r: "walk_loop (b # a # rest) (sh, c, r) = (sh + r / p, c + r, 0)"
        using pos n by (simp add: a b get_or_def Let_def e2 c1)
      show ?thesis by (simp only: st l r)
    qed
  qed
qed


lemma walk_loop_cons_cong:
  assumes "\<And>st'. walk_loop xs st' = walk_loop ys st'"
  shows "walk_loop (a # xs) st = walk_loop (a # ys) st"
  using assms by (cases st) (simp add: Let_def)

lemma walk_loop_move_front:
  assumes "\<forall>y\<in>set pre. sort_price y = sort_price a"
  shows "walk_loop (pre @ a # post) st = walk_loop (a # pre @ post) st"
  using assms
proof (induction pre arbitrary: st)
  case Nil
  show ?case by simp
next
  case (Cons y pre)
  have "walk_loop (y # pre @ a # post) st = walk_loop (y # a # pre @ post) st"
    using Cons by (intro walk_loop_cons_cong) simp
  also have "\<dots> = walk_loop (a # y # pre @ post) st"
    using Cons.prems by (intro walk_loop_swap) simp
  finally show ?case by simp
qed

lemma walk_loop_sorted_perm:
  assumes "sorted (map sort_price xs)" "sorted (map sort_price ys)" "mset xs = mset ys"
  shows "walk_loop xs st = walk_loop ys st"
  using assms
proof (induction xs arbitrary: ys st)
  case Nil
  then show ?case by simp
next
  case (Cons a xs)
  have "a \<in> set ys" using Cons.prems(3) by (metis list.set_intros(1) set_mset_mset)
  then obtain pre post where ys: "ys = pre @ a # post" by (auto dest: split_list)
  have same: "\<forall>y\<in>set pre. sort_price y = sort_price a"
  proof
    fix y assume y: "y \<in> set pre"
    then have "sort_price y \<le> sort_price a"
      using Cons.prems(2) by (auto simp: ys sorted_append)
    moreover have "y \<in> set (a # xs)" using y Cons.prems(3) ys
      by (metis Un_iff set_append set_mset_mset)
    then have "sort_price a \<le> sort_price y" using Cons.prems(1) by auto
    ultimately show "sort_price y = sort_price a" by simp
  qed
  have rest: "mset xs = mset (pre @ post)" using Cons.prems(3) by (simp add: ys)
  have srt: "sorted (map sort_price (pre @ post))"
    using Cons.prems(2) by (auto simp: ys sorted_append)
  have "walk_loop ys st = walk_loop (a # pre @ post) st"
    unfolding ys by (rule walk_loop_move_front [OF same])
  also have "\<dots> = walk_loop (a # xs) st"
    using Cons.IH [OF _ srt rest] Cons.prems(1) by (intro walk_loop_cons_cong) simp
  finally show ?case by simp
qed

text \<open>
  Without rounding, the order in which levels of equal price are met does not matter
  either: permuted lists give the same shares and cost.
\<close>

lemma walk_book_permutation_exact:
  assumes "mset xs = mset ys"
  shows "walk_book xs usdc_budget = walk_book ys usdc_budget"
proof -
  have "walk_loop (sort_key sort_price xs) (0, 0, usdc_budget)
      = walk_loop (sort_key sort_price ys) (0, 0, usdc_budget)"
    using assms by (intro walk_loop_sorted_perm) simp_all
  then show ?thesis by (simp add: walk_book_def)
qed

lemma walk_loop_fp_exact: "walk_loop_fp (\<lambda>x. x) xs st = walk_loop xs st"
proof (induction xs arbitrary: st)
  case Nil
  show ?case by simp
next
  case (Cons x xs)
  obtain sh c r where st: "st = (sh, c, r)" by (cases st)
  show ?case using Cons.IH by (simp add: st Let_def)
qed

lemma walk_loop_fp_filter:
  "walk_loop_fp rnd (filter well_formed xs) st = walk_loop_fp rnd xs st"
proof (induction xs arbitrary: st)
  case Nil
  show ?case by simp
next
  case (Cons x xs)
  obtain sh c r where st: "st = (sh, c, r)" by (cases st)
  show ?case
  proof (cases "well_formed x")
    case False
    then have "walk_loop_fp rnd (x # xs) st = walk_loop_fp rnd xs st"
      by (auto simp: st well_formed_def Let_def)
    then show ?thesis using False Cons.IH by simp
  next
    case True
    show ?thesis using True Cons.IH by (simp add: st Let_def)
  qed
qed

lemma filter_key_single:
  assumes "distinct (map f zs)" "k \<in> set zs"
  shows "filter (\<lambda>x. f k = f x) zs = [k]"
  using assms
proof (induction zs)
  case Nil
  then show ?case by simp
next
  case (Cons z zs)
  show ?case
  proof (cases "k = z")
    case True
    have "filter (\<lambda>x. f z = f x) zs = []"
      using Cons.prems(1) by (auto simp: filter_empty_conv)
    then show ?thesis using True by simp
  next
    case False
    then have "k \<in> set zs" using Cons.prems(2) by simp
    moreover have "f k \<noteq> f z" using Cons.prems(1) calculation by (metis distinct.simps(2) image_eqI list.simps(9) set_map)
    ultimately show ?thesis using Cons by simp
  qed
qed

lemma sort_key_distinct_perm:
  assumes "mset xs = mset ys" "distinct (map f xs)"
  shows "sort_key f xs = sort_key f ys"
proof -
  let ?s = "sort_key f ys"
  have m: "mset ?s = mset xs" using assms(1) by simp
  have "mset (map f ?s) = mset (map f xs)" using m by (metis mset_map)
  then have d: "distinct (map f ?s)" using assms(2) by (metis mset_eq_imp_distinct_iff)
  have st: "set ?s = set xs" using m by (metis set_mset_mset)
  have "filter (\<lambda>x. f k = f x) ?s = filter (\<lambda>x. f k = f x) xs" if "k \<in> set ?s" for k
    using filter_key_single [OF d that] filter_key_single [OF assms(2), of k] that st by simp
  then show ?thesis
    by (intro properties_for_sort_key [OF m]) simp_all
qed

text \<open>
  \<open>binary64\<close> on known values: the double written 0.1, a double that is kept, and the two
  ties above \<open>2^53\<close>, where doubles are two apart.
\<close>

lemma binary64_tenth: "binary64 (1 / 10) = 3602879701896397 / 36028797018963968"
  by code_simp

lemma binary64_kept: "binary64 (3602879701896397 / 36028797018963968) = 3602879701896397 / 36028797018963968"
  by code_simp

lemma binary64_ties:
  "binary64 (9007199254740993) = 9007199254740992"
  "binary64 (9007199254740995) = 9007199254740996"
  by code_simp+

text \<open>
  Under double rounding the order of equal-price levels shows. The stable sort leaves the
  asks (0.1, 1) and (0.1, 19) in the order given; with budget 2 the walker returns
  19.999999999999996 shares when the small level comes first and 20.0 when it comes last,
  at cost 2.0 both times.
\<close>

theorem walk_book_equal_price_order:
  "mset dime_small_first = mset dime_large_first
   \<and> walk_book_fp binary64 dime_small_first 2 = (5629499534213119 / 281474976710656, 2)
   \<and> walk_book_fp binary64 dime_large_first 2 = (20, 2)
   \<and> walk_book_fp binary64 dime_small_first 2 \<noteq> walk_book_fp binary64 dime_large_first 2"
proof -
  have m: "mset dime_small_first = mset dime_large_first"
    by (simp add: dime_small_first_def dime_large_first_def add.commute)
  have a: "walk_book_fp binary64 dime_small_first 2 = (5629499534213119 / 281474976710656, 2)"
    by code_simp
  have b: "walk_book_fp binary64 dime_large_first 2 = (20, 2)"
    by code_simp
  show ?thesis using m a b by simp
qed

text \<open>
  C4. Two lists of ask levels that are permutations of each other, in which no two levels
  that the walker does not skip have the same price, give the same shares and cost for
  every budget, whatever the rounding of the arithmetic, and so without rounding too.
\<close>

theorem walk_book_distinct_prices:
  assumes "mset xs = mset ys" and "distinct (map sort_price (filter well_formed xs))"
  shows "walk_book_fp rnd xs usdc_budget = walk_book_fp rnd ys usdc_budget
       \<and> walk_book xs usdc_budget = walk_book ys usdc_budget"
proof -
  have m: "mset (filter well_formed xs) = mset (filter well_formed ys)"
    using assms(1) by (metis mset_filter)
  have s: "sort_key sort_price (filter well_formed xs) = sort_key sort_price (filter well_formed ys)"
    using m assms(2) by (rule sort_key_distinct_perm)
  have fp: "walk_loop_fp r (sort_key sort_price xs) st = walk_loop_fp r (sort_key sort_price ys) st"
    for r st
  proof -
    have "walk_loop_fp r (sort_key sort_price xs) st
        = walk_loop_fp r (sort_key sort_price (filter well_formed xs)) st"
      by (simp add: filter_sort [symmetric] walk_loop_fp_filter)
    also have "\<dots> = walk_loop_fp r (sort_key sort_price (filter well_formed ys)) st"
      by (simp only: s)
    also have "\<dots> = walk_loop_fp r (sort_key sort_price ys) st"
      by (simp add: filter_sort [symmetric] walk_loop_fp_filter)
    finally show ?thesis .
  qed
  have "walk_book_fp rnd xs usdc_budget = walk_book_fp rnd ys usdc_budget"
    by (simp add: walk_book_fp_def fp)
  moreover have "walk_book xs usdc_budget = walk_book ys usdc_budget"
    using fp [of "\<lambda>x. x" "(0, 0, usdc_budget)"] by (simp add: walk_book_def walk_loop_fp_exact)
  ultimately show ?thesis by simp
qed

theorem walk_book_distinct_prices_witness:
  "mset double_asks_rev = mset double_asks
   \<and> distinct (map sort_price (filter well_formed double_asks_rev))
   \<and> walk_book_fp binary64 double_asks_rev 20 = (5373613191748887 / 140737488355328, 20)
   \<and> walk_book_fp binary64 double_asks 20 = (5373613191748887 / 140737488355328, 20)
   \<and> walk_book double_asks_rev 20 = walk_book double_asks 20"
proof -
  have m: "mset double_asks_rev = mset double_asks"
    by (simp add: double_asks_def double_asks_rev_def add.commute)
  have d: "distinct (map sort_price (filter well_formed double_asks_rev))"
    by code_simp
  have v: "walk_book_fp binary64 double_asks 20 = (5373613191748887 / 140737488355328, 20)"
    by code_simp
  from walk_book_distinct_prices [OF m d, of binary64 20] v m d
  show ?thesis by simp
qed

section \<open>What the walker fills\<close>

lemma level_cost_pos: "well_formed x \<Longrightarrow> 0 < level_cost x"
  by (simp add: well_formed_def level_cost_def)

lemma notional_nonneg: "list_all well_formed xs \<Longrightarrow> 0 \<le> notional xs"
  by (induction xs) (auto simp: notional_def dest: level_cost_pos)

lemma walk_loop_whole:
  assumes "well_formed x" "level_cost x \<le> r"
  shows "walk_loop (x # xs) (sh, c, r)
       = walk_loop xs (sh + get_or (size_lvl x) 0, c + level_cost x, r - level_cost x)"
  using assms by (simp add: well_formed_def level_cost_def Let_def not_le)

lemma walk_loop_partial:
  assumes "well_formed x" "r < level_cost x"
  shows "walk_loop (x # xs) (sh, c, r) = (sh + r / get_or (price x) 0, c + r, 0)"
  using assms by (simp add: well_formed_def level_cost_def Let_def not_le)

lemma walk_loop_prefix:
  assumes "list_all well_formed pre" "notional pre \<le> r"
  shows "walk_loop (pre @ rest) (sh, c, r)
       = walk_loop rest (sh + total_size pre, c + notional pre, r - notional pre)"
  using assms
proof (induction pre arbitrary: sh c r)
  case Nil
  show ?case by (simp add: notional_def total_size_def)
next
  case (Cons x pre)
  have wf: "well_formed x" "list_all well_formed pre" using Cons.prems(1) by simp_all
  have split: "notional (x # pre) = level_cost x + notional pre"
    "total_size (x # pre) = get_or (size_lvl x) 0 + total_size pre"
    by (simp_all add: notional_def total_size_def)
  have le: "level_cost x \<le> r" "notional pre \<le> r - level_cost x"
    using Cons.prems(2) notional_nonneg [OF wf(2)] by (simp_all add: split)
  show ?case
    using Cons.IH [OF wf(2) le(2)] walk_loop_whole [OF wf(1) le(1)]
    by (simp add: split algebra_simps)
qed

lemma walk_loop_all:
  assumes "list_all well_formed xs" "notional xs \<le> r"
  shows "walk_loop xs (sh, c, r) = (sh + total_size xs, c + notional xs, r - notional xs)"
  using walk_loop_prefix [OF assms, of "[]"] by simp

lemma walk_loop_split:
  assumes "list_all well_formed pre" "well_formed lvl"
    "notional pre \<le> r" "r < notional pre + level_cost lvl"
  shows "walk_loop (pre @ lvl # post) (sh, c, r)
       = (sh + total_size pre + (r - notional pre) / get_or (price lvl) 0, c + r, 0)"
proof -
  have "r - notional pre < level_cost lvl" using assms(4) by simp
  then show ?thesis
    using walk_loop_prefix [OF assms(1,3)] walk_loop_partial [OF assms(2)] by simp
qed

lemma split_exists:
  assumes "list_all well_formed xs" "0 \<le> r" "r < notional xs"
  shows "\<exists>pre lvl post. xs = pre @ lvl # post \<and> notional pre \<le> r \<and> r < notional pre + level_cost lvl"
  using assms
proof (induction xs arbitrary: r)
  case Nil
  then show ?case by (simp add: notional_def)
next
  case (Cons x xs)
  show ?case
  proof (cases "r < level_cost x")
    case True
    then have "x # xs = [] @ x # xs \<and> notional [] \<le> r \<and> r < notional [] + level_cost x"
      using Cons.prems(2) by (simp add: notional_def)
    then show ?thesis by blast
  next
    case False
    then have "0 \<le> r - level_cost x" "r - level_cost x < notional xs"
      using Cons.prems(3) by (simp_all add: notional_def)
    with Cons.IH [of "r - level_cost x"] Cons.prems(1)
    obtain pre lvl post where s: "xs = pre @ lvl # post" "notional pre \<le> r - level_cost x"
      "r - level_cost x < notional pre + level_cost lvl" by auto
    have "x # xs = (x # pre) @ lvl # post \<and> notional (x # pre) \<le> r
        \<and> r < notional (x # pre) + level_cost lvl"
      using s by (simp add: notional_def)
    then show ?thesis by blast
  qed
qed

lemma depth_sum_well_formed:
  "list_all well_formed xs \<Longrightarrow> depth_sum xs = Inr (notional xs)"
  by (induction xs) (auto simp: notional_def level_cost_def well_formed_def get_or_def split: option.splits)

lemma notional_sort: "notional (sort_key f xs) = notional xs"
proof -
  have "sum_mset (image_mset level_cost (mset (sort_key f xs))) = sum_mset (image_mset level_cost (mset xs))"
    by simp
  then show ?thesis unfolding notional_def by (simp only: sum_mset_sum_list [symmetric] mset_map)
qed

lemma total_size_sort: "total_size (sort_key f xs) = total_size xs"
proof -
  have "sum_mset (image_mset (\<lambda>x. get_or (size_lvl x) 0) (mset (sort_key f xs)))
      = sum_mset (image_mset (\<lambda>x. get_or (size_lvl x) 0) (mset xs))"
    by simp
  then show ?thesis unfolding total_size_def by (simp only: sum_mset_sum_list [symmetric] mset_map)
qed

lemma well_formed_sort: "list_all well_formed (sort_key f xs) = list_all well_formed xs"
  by (simp add: list_all_iff)

lemma floor_rat_numeral:
  "\<lfloor>numeral a / numeral b :: rat\<rfloor> = numeral a div numeral b"
  using floor_divide_of_int_eq [of "numeral a" "numeral b", where ?'a = rat] by simp

lemma floor_rat_neg_numeral:
  "\<lfloor>- (numeral a / numeral b) :: rat\<rfloor> = - numeral a div numeral b"
  using floor_divide_of_int_eq [of "- numeral a" "numeral b", where ?'a = rat] by simp

lemma walk_book_cost_budget:
  assumes "list_all well_formed asks" "0 < b" "b \<le> notional asks"
  shows "snd (walk_book asks b) = b"
proof (cases "b = notional asks")
  case True
  have "notional (sort_key sort_price asks) \<le> b" by (simp add: notional_sort True)
  from walk_loop_all [OF _ this, of 0 0] assms(1) show ?thesis
    by (simp add: walk_book_def well_formed_sort notional_sort True)
next
  case False
  then have "b < notional (sort_key sort_price asks)" using assms(3) by (simp add: notional_sort)
  with split_exists [of "sort_key sort_price asks" b] assms(1,2)
  obtain pre lvl post where s: "sort_key sort_price asks = pre @ lvl # post"
    "notional pre \<le> b" "b < notional pre + level_cost lvl"
    by (auto simp: well_formed_sort)
  have "list_all well_formed (pre @ lvl # post)" using assms(1) well_formed_sort [of sort_price asks]
    by (simp add: s(1))
  then have "list_all well_formed pre" "well_formed lvl" by simp_all
  from walk_loop_split [OF this s(2,3), of post 0 0] show ?thesis
    by (simp add: walk_book_def s(1))
qed

lemma walk_book_shares_split:
  assumes "list_all well_formed asks" "sort_key sort_price asks = pre @ lvl # post"
    "notional pre \<le> b" "b < notional pre + level_cost lvl"
  shows "fst (walk_book asks b) = total_size pre + (b - notional pre) / get_or (price lvl) 0"
proof -
  have "list_all well_formed (pre @ lvl # post)" using assms(1) well_formed_sort [of sort_price asks]
    by (simp add: assms(2))
  then have "list_all well_formed pre" "well_formed lvl" by simp_all
  from walk_loop_split [OF this assms(3,4), of post 0 0] show ?thesis
    by (simp add: walk_book_def assms(2))
qed

lemma walk_book_full_depth:
  assumes "list_all well_formed asks" "notional asks \<le> b"
  shows "walk_book asks b = (total_size asks, notional asks)"
proof -
  have "notional (sort_key sort_price asks) \<le> b" by (simp add: notional_sort assms(2))
  from walk_loop_all [OF _ this, of 0 0] assms(1) show ?thesis
    by (simp add: walk_book_def well_formed_sort notional_sort total_size_sort)
qed

lemma well_formed_prices:
  assumes "well_formed x"
  shows "sort_price x = walked_price x"
  using assms by (auto simp: well_formed_def sort_price_def walked_price_def get_or_def split: option.splits)

lemma sort_ascending:
  assumes "list_all well_formed asks"
  shows "sorted (map walked_price (sort_key sort_price asks))"
proof -
  have "walked_price x = sort_price x" if "x \<in> set (sort_key sort_price asks)" for x
    using that assms by (simp add: list_all_iff well_formed_prices)
  then have "map walked_price (sort_key sort_price asks) = map sort_price (sort_key sort_price asks)"
    by (rule map_cong [OF refl])
  then show ?thesis by (simp only: sorted_sort_key)
qed

lemma sort_ties_in_order:
  assumes "list_all well_formed asks"
  shows "filter (\<lambda>x. walked_price x = p) (sort_key sort_price asks)
       = filter (\<lambda>x. walked_price x = p) asks"
proof -
  have w: "(walked_price x = p) = (sort_price x = p)" if "x \<in> set asks" for x
    using that assms by (simp add: list_all_iff well_formed_prices)
  have w': "(walked_price x = p) = (sort_price x = p)" if "x \<in> set (sort_key sort_price asks)" for x
    using that w by simp
  have "filter (\<lambda>x. walked_price x = p) (sort_key sort_price asks)
      = filter (\<lambda>x. sort_price x = p) (sort_key sort_price asks)"
    using w' by (rule filter_cong [OF refl])
  also have "\<dots> = filter (\<lambda>x. sort_price x = p) asks"
    by (rule sort_key_stable)
  also have "\<dots> = filter (\<lambda>x. walked_price x = p) asks"
    using w [symmetric] by (rule filter_cong [OF refl])
  finally show ?thesis .
qed

text \<open>
  C1. For ask levels with positive prices and sizes and a positive budget. The walker
  walks the levels in ascending order of price: the list it walks holds the same levels
  as the asks, its prices ascend, and levels of one price keep the order of the asks. The
  depth the code reports is the sum of price times size. A budget of at most the depth is
  spent in full; below the depth the walked list splits into a prefix of whole levels
  that the budget affords and a first level it does not, and the shares are the sizes of
  the prefix plus the rest of the budget divided by the price of that level. A budget of
  the depth or more buys every level, at the cost of the depth. For the asks (0.50, 20)
  and (0.55, 30), in either order, and budget 20 the walker returns 420/11 shares, about
  38.18, at cost 20, and \<open>analyze_book\<close> reports average price 0.5238 and slippage 4.76.
\<close>

theorem walk_book_fill:
  assumes "list_all well_formed asks" and "0 < usdc_budget"
  shows "depth_sum asks = Inr (notional asks)
    \<and> mset (sort_key sort_price asks) = mset asks
    \<and> sorted (map walked_price (sort_key sort_price asks))
    \<and> (\<forall>p. filter (\<lambda>x. walked_price x = p) (sort_key sort_price asks)
            = filter (\<lambda>x. walked_price x = p) asks)
    \<and> (usdc_budget \<le> notional asks \<longrightarrow> snd (walk_book asks usdc_budget) = usdc_budget)
    \<and> (usdc_budget < notional asks \<longrightarrow>
         (\<exists>pre lvl post. sort_key sort_price asks = pre @ lvl # post
            \<and> notional pre \<le> usdc_budget \<and> usdc_budget < notional pre + level_cost lvl))
    \<and> (\<forall>pre lvl post. sort_key sort_price asks = pre @ lvl # post
            \<and> notional pre \<le> usdc_budget \<and> usdc_budget < notional pre + level_cost lvl
          \<longrightarrow> fst (walk_book asks usdc_budget)
              = total_size pre + (usdc_budget - notional pre) / walked_price lvl)
    \<and> (notional asks \<le> usdc_budget \<longrightarrow>
          walk_book asks usdc_budget = (total_size asks, notional asks))
    \<and> walk_book example_asks 20 = (420 / 11, 20)
    \<and> walk_book descending_asks 20 = (420 / 11, 20)
    \<and> analyze_book default_config (\<lambda>t. Book example_asks []) token_id 20
        = Inr (Some \<lparr> best_ask = Some (1 / 2), best_bid = None, ask_depth = 53 / 2,
                 shares = 381818 / 10000, actual_cost = 20, avg_price = Some (5238 / 10000),
                 slippage_pct = 476 / 100, warnings = [HighSlippage (476 / 100)],
                 blocked = False \<rparr>, None)"
proof -
  have a: "depth_sum asks = Inr (notional asks)"
    using assms(1) by (rule depth_sum_well_formed)
  have m: "mset (sort_key sort_price asks) = mset asks" by simp
  have s: "sorted (map walked_price (sort_key sort_price asks))"
    using assms(1) by (rule sort_ascending)
  have t: "\<forall>p. filter (\<lambda>x. walked_price x = p) (sort_key sort_price asks)
            = filter (\<lambda>x. walked_price x = p) asks"
    using sort_ties_in_order [OF assms(1)] by blast
  have b: "usdc_budget \<le> notional asks \<longrightarrow> snd (walk_book asks usdc_budget) = usdc_budget"
    using walk_book_cost_budget [OF assms] by blast
  have c: "usdc_budget < notional asks \<longrightarrow>
         (\<exists>pre lvl post. sort_key sort_price asks = pre @ lvl # post
            \<and> notional pre \<le> usdc_budget \<and> usdc_budget < notional pre + level_cost lvl)"
    using split_exists [of "sort_key sort_price asks" usdc_budget] assms
    by (simp add: well_formed_sort notional_sort)
  have d: "\<forall>pre lvl post. sort_key sort_price asks = pre @ lvl # post
            \<and> notional pre \<le> usdc_budget \<and> usdc_budget < notional pre + level_cost lvl
          \<longrightarrow> fst (walk_book asks usdc_budget)
              = total_size pre + (usdc_budget - notional pre) / walked_price lvl"
    using walk_book_shares_split [OF assms(1)] unfolding walked_price_def by blast
  have e: "notional asks \<le> usdc_budget \<longrightarrow>
          walk_book asks usdc_budget = (total_size asks, notional asks)"
    using walk_book_full_depth [OF assms(1)] by blast
  have f: "walk_book example_asks 20 = (420 / 11, 20)"
    by (simp add: walk_book_def example_asks_def sort_price_def get_or_def)
  have f': "walk_book descending_asks 20 = (420 / 11, 20)"
    by (simp add: walk_book_def descending_asks_def sort_price_def get_or_def)
  have g: "analyze_book default_config (\<lambda>t. Book example_asks []) token_id 20
        = Inr (Some \<lparr> best_ask = Some (1 / 2), best_bid = None, ask_depth = 53 / 2,
                 shares = 381818 / 10000, actual_cost = 20, avg_price = Some (5238 / 10000),
                 slippage_pct = 476 / 100, warnings = [HighSlippage (476 / 100)],
                 blocked = False \<rparr>, None)"
    by (simp add: analyze_book_def example_asks_def first_price_def estimate_def walk_book_def
        sort_price_def get_or_def py_round_def round_half_even_def floor_rat_numeral
        default_config_def policy_warnings_def Let_def)
  show ?thesis using a m s t b c d e f f' g by (intro conjI)
qed

lemma descending_well_formed: "list_all well_formed descending_asks"
  by (simp add: well_formed_def descending_asks_def get_or_def)

lemma descending_sorted: "sort_key sort_price descending_asks = example_asks"
  by (simp add: descending_asks_def example_asks_def sort_price_def get_or_def)

lemma descending_notional: "notional descending_asks = 53 / 2"
  by (simp add: notional_def level_cost_def descending_asks_def get_or_def)

theorem walk_book_fill_witness:
  "list_all well_formed descending_asks \<and> (0::rat) < 20 \<and> 20 \<le> notional descending_asks
   \<and> sort_key sort_price descending_asks = example_asks
   \<and> sorted (map walked_price example_asks)
   \<and> snd (walk_book descending_asks 20) = 20
   \<and> fst (walk_book descending_asks 20) = 20 + (20 - 10) / (11 / 20)
   \<and> notional descending_asks \<le> 30
   \<and> walk_book descending_asks 30 = (50, 53 / 2)"
proof -
  have pos: "(0::rat) < 20" "(0::rat) < 30" by simp_all
  let ?l1 = "\<lparr>price = Some (1 / 2), size_lvl = Some (20::rat)\<rparr>"
  let ?l2 = "\<lparr>price = Some (11 / 20), size_lvl = Some (30::rat)\<rparr>"
  have split: "sort_key sort_price descending_asks = [?l1] @ ?l2 # []
     \<and> notional [?l1] \<le> 20 \<and> 20 < notional [?l1] + level_cost ?l2"
    by (simp add: descending_sorted) (simp add: example_asks_def notional_def level_cost_def get_or_def)
  have sz: "total_size [?l1] = 20" "notional [?l1] = 10" "walked_price ?l2 = 11 / 20"
    "total_size descending_asks = 50"
    by (simp_all add: total_size_def notional_def level_cost_def get_or_def descending_asks_def
        walked_price_def)
  note t20 = walk_book_fill [OF descending_well_formed pos(1)]
  note t30 = walk_book_fill [OF descending_well_formed pos(2)]
  have srt: "sorted (map walked_price example_asks)"
    using t20 by (simp add: descending_sorted)
  have cost: "snd (walk_book descending_asks 20) = 20"
    using t20 by (simp add: descending_notional)
  have "\<forall>pre lvl post. sort_key sort_price descending_asks = pre @ lvl # post
            \<and> notional pre \<le> 20 \<and> 20 < notional pre + level_cost lvl
          \<longrightarrow> fst (walk_book descending_asks 20)
              = total_size pre + (20 - notional pre) / walked_price lvl"
    using t20 by blast
  with split have sh: "fst (walk_book descending_asks 20) = 20 + (20 - 10) / (11 / 20)"
    by (metis sz(1,2,3))
  have full: "walk_book descending_asks 30 = (50, 53 / 2)"
    using t30 by (simp add: descending_notional sz)
  show ?thesis
    using descending_well_formed descending_sorted srt cost sh full
    by (simp add: descending_notional)
qed

section \<open>Slippage policy\<close>

lemma analyze_book_estimate:
  assumes "analyze_book cfg fetch_book token_id usdc = Inr (Some r, err)"
  obtains asks bids b_ask b_bid depth where
    "fetch_book token_id = Book asks bids" "first_price asks = Inr b_ask"
    "first_price bids = Inr b_bid" "depth_sum asks = Inr depth"
    "r = estimate cfg asks b_ask b_bid depth usdc"
  using assms unfolding analyze_book_def
  by (auto split: book_response.splits sum.splits)

lemma estimate_blocked:
  "blocked (estimate cfg asks b_ask b_bid depth usdc)
     = (slippage_block cfg < slippage_pct (estimate cfg asks b_ask b_bid depth usdc))"
  by (simp add: estimate_def Let_def split: prod.splits)

lemma estimate_warnings:
  "warnings (estimate cfg asks b_ask b_bid depth usdc)
     = policy_warnings cfg (slippage_pct (estimate cfg asks b_ask b_bid depth usdc))
         (snd (walk_book asks usdc)) usdc"
  by (simp add: estimate_def Let_def split: prod.splits)

lemma example_estimate:
  "analyze_book cfg (\<lambda>t. Book example_asks []) token_id 20
     = Inr (Some \<lparr> best_ask = Some (1 / 2), best_bid = None, ask_depth = 53 / 2,
              shares = 381818 / 10000, actual_cost = 20, avg_price = Some (5238 / 10000),
              slippage_pct = 476 / 100, warnings = policy_warnings cfg (476 / 100) 20 20,
              blocked = (slippage_block cfg < 476 / 100) \<rparr>, None)"
  by (simp add: analyze_book_def example_asks_def first_price_def estimate_def walk_book_def
        sort_price_def get_or_def py_round_def round_half_even_def floor_rat_numeral Let_def)

text \<open>
  C3. The verdict compares strictly. When \<open>analyze_book\<close> returns an estimate: slippage
  equal to the block threshold leaves \<open>blocked\<close> false and gives no BLOCKED warning;
  slippage above the block threshold sets \<open>blocked\<close> and gives the BLOCKED warning;
  slippage above the warn threshold and not above the block threshold leaves \<open>blocked\<close>
  false, and the high-slippage warning is the only warning about slippage.
\<close>

theorem policy_strict:
  assumes "analyze_book cfg fetch_book token_id usdc = Inr (Some r, err)"
  shows "(slippage_pct r = slippage_block cfg \<longrightarrow>
            \<not> blocked r \<and> \<not> (\<exists>w\<in>set (warnings r). is_blocked_warning w))
    \<and> (slippage_block cfg < slippage_pct r \<longrightarrow>
            blocked r \<and> Blocked (slippage_pct r) (slippage_block cfg) \<in> set (warnings r))
    \<and> (slippage_warn cfg < slippage_pct r \<and> slippage_pct r \<le> slippage_block cfg \<longrightarrow>
            \<not> blocked r
          \<and> filter (\<lambda>w. \<not> is_liquidity_warning w) (warnings r) = [HighSlippage (slippage_pct r)])"
proof -
  from assms obtain asks bids b_ask b_bid depth where
    r: "r = estimate cfg asks b_ask b_bid depth usdc"
    by (rule analyze_book_estimate)
  show ?thesis
    unfolding r estimate_blocked estimate_warnings
    by (auto simp: policy_warnings_def)
qed

theorem policy_strict_witness:
  "(\<exists>r. analyze_book (default_config\<lparr>slippage_block := 476 / 100\<rparr>) (\<lambda>t. Book example_asks []) ''yes'' 20
          = Inr (Some r, None)
        \<and> slippage_pct r = 476 / 100 \<and> \<not> blocked r \<and> warnings r = [HighSlippage (476 / 100)])
   \<and> (\<exists>r. analyze_book (default_config\<lparr>slippage_block := 4\<rparr>) (\<lambda>t. Book example_asks []) ''yes'' 20
          = Inr (Some r, None)
        \<and> slippage_pct r = 476 / 100 \<and> blocked r \<and> Blocked (476 / 100) 4 \<in> set (warnings r))
   \<and> (\<exists>r. analyze_book default_config (\<lambda>t. Book example_asks []) ''yes'' 20
          = Inr (Some r, None)
        \<and> slippage_pct r = 476 / 100 \<and> \<not> blocked r
        \<and> filter (\<lambda>w. \<not> is_liquidity_warning w) (warnings r) = [HighSlippage (476 / 100)])"
proof -
  note e1 = example_estimate [of "default_config\<lparr>slippage_block := 476 / 100\<rparr>" "''yes''"]
  note e2 = example_estimate [of "default_config\<lparr>slippage_block := 4\<rparr>" "''yes''"]
  note e3 = example_estimate [of default_config "''yes''"]
  show ?thesis
    using policy_strict [OF e1] policy_strict [OF e2] policy_strict [OF e3] e1 e2 e3
    by (simp add: default_config_def policy_warnings_def)
qed


text \<open>
  C6. When \<open>analyze_book\<close> returns an estimate, it holds an insufficient-liquidity warning
  exactly when the cost the walker achieved is below 99% of the requested budget, whatever
  the slippage, and \<open>blocked\<close> is decided by the slippage alone. An empty list of asks with
  a positive budget gives zero shares, zero cost, no average price, slippage 0 and the
  insufficient-liquidity warning.
\<close>

theorem liquidity_warning:
  "(fetch_book token_id = Book asks bids
      \<and> analyze_book cfg fetch_book token_id usdc = Inr (Some r, err) \<longrightarrow>
        ((\<exists>w\<in>set (warnings r). is_liquidity_warning w)
            \<longleftrightarrow> snd (walk_book asks usdc) < usdc * (99 / 100))
      \<and> (blocked r \<longleftrightarrow> slippage_block cfg < slippage_pct r))
   \<and> (fetch_book token_id = Book [] bids \<and> first_price bids = Inr b_bid \<and> 0 < usdc \<longrightarrow>
        analyze_book cfg fetch_book token_id usdc
          = Inr (Some \<lparr> best_ask = None, best_bid = b_bid, ask_depth = 0, shares = 0,
                   actual_cost = 0, avg_price = None, slippage_pct = 0,
                   warnings = (if slippage_block cfg < 0 then [Blocked 0 (slippage_block cfg)]
                               else if slippage_warn cfg < 0 then [HighSlippage 0] else [])
                              @ [InsufficientLiquidity 0],
                   blocked = (slippage_block cfg < 0) \<rparr>, None))"
proof (intro conjI impI)
  assume a: "fetch_book token_id = Book asks bids
      \<and> analyze_book cfg fetch_book token_id usdc = Inr (Some r, err)"
  then obtain asks' bids' b_ask b_bid depth where
    f: "fetch_book token_id = Book asks' bids'" and
    r: "r = estimate cfg asks' b_ask b_bid depth usdc"
    by (blast elim: analyze_book_estimate)
  have same: "asks' = asks" using a f by simp
  show "(\<exists>w\<in>set (warnings r). is_liquidity_warning w)
            \<longleftrightarrow> snd (walk_book asks usdc) < usdc * (99 / 100)"
    unfolding r estimate_warnings same by (auto simp: policy_warnings_def)
  show "blocked r \<longleftrightarrow> slippage_block cfg < slippage_pct r"
    unfolding r by (rule estimate_blocked)
next
  assume "fetch_book token_id = Book [] bids \<and> first_price bids = Inr b_bid \<and> 0 < usdc"
  then show "analyze_book cfg fetch_book token_id usdc
          = Inr (Some \<lparr> best_ask = None, best_bid = b_bid, ask_depth = 0, shares = 0,
                   actual_cost = 0, avg_price = None, slippage_pct = 0,
                   warnings = (if slippage_block cfg < 0 then [Blocked 0 (slippage_block cfg)]
                               else if slippage_warn cfg < 0 then [HighSlippage 0] else [])
                              @ [InsufficientLiquidity 0],
                   blocked = (slippage_block cfg < 0) \<rparr>, None)"
    by (simp add: analyze_book_def first_price_def estimate_def walk_book_def py_round_def
          round_half_even_def policy_warnings_def)
qed

theorem liquidity_warning_witness:
  "analyze_book default_config (\<lambda>t. Book example_asks []) ''yes'' 100
     = Inr (Some \<lparr> best_ask = Some (1 / 2), best_bid = None, ask_depth = 53 / 2, shares = 50,
              actual_cost = 53 / 2, avg_price = Some (53 / 100), slippage_pct = 6,
              warnings = [Blocked 6 5, InsufficientLiquidity (53 / 2)], blocked = True \<rparr>, None)
   \<and> snd (walk_book example_asks 100) < 100 * (99 / 100)
   \<and> analyze_book default_config (\<lambda>t. Book [] []) ''yes'' 25
     = Inr (Some \<lparr> best_ask = None, best_bid = None, ask_depth = 0, shares = 0,
              actual_cost = 0, avg_price = None, slippage_pct = 0,
              warnings = [InsufficientLiquidity 0], blocked = False \<rparr>, None)"
proof -
  let ?r = "\<lparr> best_ask = Some (1 / 2), best_bid = None, ask_depth = 53 / 2, shares = 50,
              actual_cost = 53 / 2, avg_price = Some (53 / 100), slippage_pct = 6,
              warnings = [Blocked 6 5, InsufficientLiquidity (53 / 2)], blocked = True \<rparr>"
  have e: "analyze_book default_config (\<lambda>t. Book example_asks []) ''yes'' 100 = Inr (Some ?r, None)"
    by (simp add: analyze_book_def example_asks_def first_price_def estimate_def walk_book_def
        sort_price_def get_or_def py_round_def round_half_even_def floor_rat_numeral Let_def
        default_config_def policy_warnings_def)
  have f: "first_price ([] :: level list) = Inr None" by (simp add: first_price_def)
  from liquidity_warning [of "\<lambda>t. Book example_asks []" "''yes''" example_asks "[]"
      default_config 100 ?r None None] e
  have "snd (walk_book example_asks 100) < 100 * (99 / 100)" by simp
  moreover from liquidity_warning [of "\<lambda>t. Book [] []" "''yes''" "[]" "[]"
      default_config 25 ?r None None] f
  have "analyze_book default_config (\<lambda>t. Book [] []) ''yes'' 25
     = Inr (Some \<lparr> best_ask = None, best_bid = None, ask_depth = 0, shares = 0,
              actual_cost = 0, avg_price = None, slippage_pct = 0,
              warnings = [InsufficientLiquidity 0], blocked = False \<rparr>, None)"
    by (simp add: default_config_def)
  ultimately show ?thesis using e by simp
qed

text \<open>
  C10. In every estimate \<open>analyze_book\<close> returns, \<open>blocked\<close> is true exactly when the list
  of warnings holds a BLOCKED entry.
\<close>

theorem blocked_iff_warning:
  assumes "analyze_book cfg fetch_book token_id usdc = Inr (Some r, err)"
  shows "blocked r \<longleftrightarrow> (\<exists>w\<in>set (warnings r). is_blocked_warning w)"
proof -
  from assms obtain asks bids b_ask b_bid depth where
    r: "r = estimate cfg asks b_ask b_bid depth usdc"
    by (rule analyze_book_estimate)
  show ?thesis
    unfolding r estimate_blocked estimate_warnings
    by (auto simp: policy_warnings_def)
qed

theorem blocked_iff_warning_witness:
  "(\<exists>r. analyze_book default_config (\<lambda>t. Book example_asks []) ''yes'' 100 = Inr (Some r, None)
        \<and> blocked r \<and> (\<exists>w\<in>set (warnings r). is_blocked_warning w))
   \<and> (\<exists>r. analyze_book default_config (\<lambda>t. Book example_asks []) ''yes'' 20 = Inr (Some r, None)
        \<and> \<not> blocked r \<and> \<not> (\<exists>w\<in>set (warnings r). is_blocked_warning w))"
proof -
  have e: "analyze_book default_config (\<lambda>t. Book example_asks []) ''yes'' 100
      = Inr (Some \<lparr> best_ask = Some (1 / 2), best_bid = None, ask_depth = 53 / 2, shares = 50,
              actual_cost = 53 / 2, avg_price = Some (53 / 100), slippage_pct = 6,
              warnings = [Blocked 6 5, InsufficientLiquidity (53 / 2)], blocked = True \<rparr>, None)"
    by (simp add: analyze_book_def example_asks_def first_price_def estimate_def walk_book_def
        sort_price_def get_or_def py_round_def round_half_even_def floor_rat_numeral Let_def
        default_config_def policy_warnings_def)
  note e2 = example_estimate [of default_config "''yes''"]
  show ?thesis
    using blocked_iff_warning [OF e] blocked_iff_warning [OF e2] e e2
    by (simp add: default_config_def)
qed

section \<open>The best ask\<close>

lemma walk_loop_price_floor:
  assumes "list_all well_formed xs" "\<forall>x\<in>set xs. b \<le> get_or (price x) 0" "0 \<le> r" "0 \<le> b"
    "walk_loop xs (sh, c, r) = (sh', c', r')"
  shows "b * (sh' - sh) \<le> c' - c \<and> sh \<le> sh'"
  using assms
proof (induction xs arbitrary: sh c r)
  case Nil
  then show ?case by simp
next
  case (Cons x xs)
  define p where "p = get_or (price x) 0"
  define s where "s = get_or (size_lvl x) 0"
  have pos: "0 < p" "0 < s" "b \<le> p" and wf: "well_formed x"
    using Cons.prems(1,2) by (simp_all add: well_formed_def p_def s_def)
  show ?case
  proof (cases "level_cost x \<le> r")
    case True
    have step: "walk_loop xs (sh + s, c + level_cost x, r - level_cost x) = (sh', c', r')"
      using walk_loop_whole [OF wf True, of xs sh c] Cons.prems(5) by (simp add: s_def)
    have "0 \<le> r - level_cost x" using True by simp
    from Cons.IH [OF _ _ this Cons.prems(4) step] Cons.prems(1,2)
    have ih: "b * (sh' - (sh + s)) \<le> c' - (c + level_cost x)" "sh + s \<le> sh'" by simp_all
    have "b * s \<le> p * s" using pos by (simp add: mult_right_mono)
    then have "b * s \<le> level_cost x" by (simp add: level_cost_def p_def s_def)
    with ih show ?thesis using pos by (simp add: algebra_simps)
  next
    case False
    then have "walk_loop (x # xs) (sh, c, r) = (sh + r / p, c + r, 0)"
      using walk_loop_partial [OF wf, of r xs sh c] by (simp add: p_def)
    then have eq: "sh' = sh + r / p" "c' = c + r" using Cons.prems(5) by simp_all
    have "b * (r / p) \<le> p * (r / p)"
      using pos Cons.prems(3) by (intro mult_right_mono) simp_all
    then have "b * (r / p) \<le> r" using pos by simp
    then show ?thesis using pos Cons.prems(3) by (simp add: eq)
  qed
qed

lemma round_half_even_nonneg:
  assumes "0 \<le> x"
  shows "0 \<le> round_half_even x"
proof -
  have "0 \<le> \<lfloor>x\<rfloor>" using assms by simp
  moreover have "\<lfloor>x\<rfloor> \<le> round_half_even x"
    by (simp add: round_half_even_def Let_def)
  ultimately show ?thesis by linarith
qed

lemma py_round_nonneg: "0 \<le> x \<Longrightarrow> 0 \<le> py_round x n"
  by (simp add: py_round_def round_half_even_nonneg)

text \<open>
  When the first ask is a cheapest one, the average price is at least the best ask and the
  slippage is not negative.
\<close>

lemma slippage_nonneg_lowest_first:
  assumes "fetch_book token_id = Book asks bids"
    and "analyze_book cfg fetch_book token_id usdc = Inr (Some r, err)"
    and "list_all well_formed asks" "0 \<le> usdc"
    and "first_price asks = Inr (Some b)" "\<forall>x\<in>set asks. b \<le> get_or (price x) 0"
    and "walk_book asks usdc = (sh, cost)"
  shows "(0 < sh \<longrightarrow> b \<le> cost / sh) \<and> 0 \<le> slippage_pct r"
proof -
  from assms(2) obtain asks' bids' b_ask b_bid depth where
    f: "fetch_book token_id = Book asks' bids'" "first_price asks' = Inr b_ask" and
    r: "r = estimate cfg asks' b_ask b_bid depth usdc"
    by (blast elim: analyze_book_estimate)
  have same: "asks' = asks" "b_ask = Some b" using assms(1,5) f by simp_all
  have bpos: "0 < b"
  proof (cases asks)
    case Nil
    then show ?thesis using assms(5) by (simp add: first_price_def)
  next
    case (Cons x xs)
    then have "price x = Some b" "well_formed x"
      using assms(3,5) by (simp_all add: first_price_def split: option.splits)
    then show ?thesis by (simp add: well_formed_def get_or_def)
  qed
  obtain r' where w: "walk_loop (sort_key sort_price asks) (0, 0, usdc) = (sh, cost, r')"
    using assms(7) by (auto simp: walk_book_def split: prod.splits)
  have "b * (sh - 0) \<le> cost - 0 \<and> 0 \<le> sh"
    using assms(3,4,6) bpos
    by (intro walk_loop_price_floor [OF _ _ _ _ w]) (simp_all add: well_formed_sort)
  then have le: "b * sh \<le> cost" by simp
  have avg: "0 < sh \<longrightarrow> b \<le> cost / sh"
    using le by (simp add: pos_le_divide_eq)
  have "0 \<le> slippage_of (Some b) (if 0 < sh then Some (cost / sh) else None)"
  proof (cases "0 < sh")
    case True
    then have "0 \<le> cost / sh - b" using avg by simp
    then have "0 \<le> (cost / sh - b) / b" using bpos by (intro divide_nonneg_pos)
    then have "0 \<le> ((cost / sh - b) / b) * 100" by (intro mult_nonneg_nonneg) simp_all
    then show ?thesis using True by (simp add: py_round_nonneg)
  next
    case False
    then show ?thesis by simp
  qed
  then have "0 \<le> slippage_pct r"
    unfolding r same by (simp add: estimate_def assms(7) Let_def)
  with avg show ?thesis by simp
qed

text \<open>
  C2. The claim is that the average price is never below the best ask and the slippage is
  never negative on a book without malformed or crossed levels. \<open>analyze_book\<close> takes the
  first ask as given for the best ask, while the walker sorts: for the asks (0.55, 30) and
  (0.50, 20), in this order, a bid (0.45, 10) and budget 20, the walker buys 420/11 shares
  for 20, and the report is best ask 0.55, average price 0.5238 and slippage -4.76.
\<close>

theorem best_ask_taken_as_given:
  "list_all well_formed descending_asks
   \<and> \<not> crossed descending_asks example_bids
   \<and> walk_book descending_asks 20 = (420 / 11, 20)
   \<and> analyze_book default_config (\<lambda>t. Book descending_asks example_bids) token_id 20
     = Inr (Some \<lparr> best_ask = Some (11 / 20), best_bid = Some (9 / 20), ask_depth = 53 / 2,
              shares = 381818 / 10000, actual_cost = 20, avg_price = Some (5238 / 10000),
              slippage_pct = - (476 / 100), warnings = [], blocked = False \<rparr>, None)"
proof -
  have a: "list_all well_formed descending_asks"
    by (simp add: descending_asks_def well_formed_def get_or_def)
  have b: "\<not> crossed descending_asks example_bids"
    by (simp add: crossed_def descending_asks_def example_bids_def get_or_def)
  have c: "walk_book descending_asks 20 = (420 / 11, 20)"
    by (simp add: walk_book_def descending_asks_def sort_price_def get_or_def)
  have d: "analyze_book default_config (\<lambda>t. Book descending_asks example_bids) token_id 20
     = Inr (Some \<lparr> best_ask = Some (11 / 20), best_bid = Some (9 / 20), ask_depth = 53 / 2,
              shares = 381818 / 10000, actual_cost = 20, avg_price = Some (5238 / 10000),
              slippage_pct = - (476 / 100), warnings = [], blocked = False \<rparr>, None)"
    by (simp add: analyze_book_def descending_asks_def example_bids_def first_price_def
        estimate_def walk_book_def sort_price_def get_or_def py_round_def round_half_even_def
        floor_rat_numeral floor_rat_neg_numeral Let_def default_config_def policy_warnings_def)
  show ?thesis using a b c d by simp
qed

section \<open>Token identifiers\<close>

lemma search_two: "contains SEARCH_STR (market_text two_id_market)"
  by (simp add: SEARCH_STR_def market_text_def two_id_market_def or_str_def get_or_def lower_def lower_char_def)

lemma search_outcome: "contains SEARCH_STR (market_text outcome_market)"
  by (simp add: SEARCH_STR_def market_text_def outcome_market_def or_str_def get_or_def lower_def lower_char_def)

lemma discover_two_id:
  "discover (Markets [two_id_market]) t
     = (Some \<lparr> win_title = Some ''Bitcoin Price 5 Min: up or down?'', yes_token = ''123'',
            no_token = [], end_time = ''12:05:00 UTC'',
            seconds_remaining = max 0 (py_int (1010 - t)), win_liquidity = 1500 \<rparr>, None)"
  by (simp add: discover_def search_two)
    (simp add: two_id_market_def extract_ids_def window_clock_def or_str_def
      or_float_def get_or_def)

text \<open>
  C8. The claim is that \<open>discover\<close> never returns a market whose second token identifier
  is empty. The check before the return looks at the number of identifiers and at the
  first one only: a token list \<open>["123", ""]\<close>, and outcome objects of which the second
  has no identifier, both give a market record with \<open>no_token\<close> empty.
\<close>

theorem discover_empty_second_token:
  "discover (Markets [two_id_market]) 1000
     = (Some \<lparr> win_title = Some ''Bitcoin Price 5 Min: up or down?'', yes_token = ''123'',
            no_token = [], end_time = ''12:05:00 UTC'', seconds_remaining = 10,
            win_liquidity = 1500 \<rparr>, None)
   \<and> discover (Markets [outcome_market]) 1000
     = (Some \<lparr> win_title = Some ''BITCOIN PRICE 5 MIN'', yes_token = ''123'',
            no_token = [], end_time = ''unknown'', seconds_remaining = 999,
            win_liquidity = 0 \<rparr>, None)"
proof -
  have a: "discover (Markets [two_id_market]) 1000
     = (Some \<lparr> win_title = Some ''Bitcoin Price 5 Min: up or down?'', yes_token = ''123'',
            no_token = [], end_time = ''12:05:00 UTC'', seconds_remaining = 10,
            win_liquidity = 1500 \<rparr>, None)"
    by (simp add: discover_def search_two)
      (simp add: two_id_market_def extract_ids_def window_clock_def py_int_def or_str_def
        or_float_def get_or_def)
  have b: "discover (Markets [outcome_market]) 1000
     = (Some \<lparr> win_title = Some ''BITCOIN PRICE 5 MIN'', yes_token = ''123'',
            no_token = [], end_time = ''unknown'', seconds_remaining = 999,
            win_liquidity = 0 \<rparr>, None)"
    by (simp add: discover_def search_outcome)
      (simp add: outcome_market_def extract_ids_def window_clock_def py_int_def or_str_def
        or_float_def get_or_def)
  show ?thesis using a b by simp
qed


section \<open>The window gate\<close>

lemma execute_force: "execute cfg w (a\<lparr>arg_force := f\<rparr>) token side usdc = execute cfg w a token side usdc"
  by (simp add: execute_def Let_def split: option.splits)

lemma price_and_trade_force:
  assumes "price_and_trade cfg w (a\<lparr>arg_force := False\<rparr>) mkt = (evs, out)" "out \<noteq> SlippageBlocked"
  shows "price_and_trade cfg w (a\<lparr>arg_force := True\<rparr>) mkt = (evs, out)"
  using assms unfolding price_and_trade_def Let_def execute_force
  by (auto split: sum.splits option.splits prod.splits if_splits)

lemma upper_buy: "upper ''BUY'' = ''BUY''" "upper ''FOK'' = ''FOK''"
  by (simp_all add: upper_def upper_char_def get_or_def)

lemma example_estimate_100:
  "analyze_book default_config (\<lambda>t. Book example_asks []) token_id 100
      = Inr (Some \<lparr> best_ask = Some (1 / 2), best_bid = None, ask_depth = 53 / 2, shares = 50,
              actual_cost = 53 / 2, avg_price = Some (53 / 100), slippage_pct = 6,
              warnings = [Blocked 6 5, InsufficientLiquidity (53 / 2)], blocked = True \<rparr>, None)"
  by (simp add: analyze_book_def example_asks_def first_price_def estimate_def walk_book_def
        sort_price_def get_or_def py_round_def round_half_even_def floor_rat_numeral Let_def
        default_config_def policy_warnings_def)

text \<open>
  C7. When discovery returns a window whose seconds remaining are below
  \<open>min_time_remaining\<close>, the run ends as refused after the discovery call alone: no book is
  fetched and no order is placed, with or without the force flag. For any run, setting
  the force flag changes nothing unless the run without it ends at the slippage block.
\<close>

theorem window_gate:
  "(\<not> arg_config a \<and> \<not> arg_orders a \<and> or_str (arg_cancel a) None = None
      \<and> discover (gamma_reply w) (now w) = (Some mkt, None)
      \<and> seconds_remaining mkt < min_time_remaining cfg \<longrightarrow>
        run cfg w a = ([Discover], WindowTooShort (seconds_remaining mkt) (min_time_remaining cfg))
      \<and> run cfg w (a\<lparr>arg_force := True\<rparr>) = run cfg w a)
   \<and> (run cfg w (a\<lparr>arg_force := False\<rparr>) = (evs, out) \<and> out \<noteq> SlippageBlocked \<longrightarrow>
        run cfg w (a\<lparr>arg_force := True\<rparr>) = (evs, out))"
proof (intro conjI impI)
  assume h: "\<not> arg_config a \<and> \<not> arg_orders a \<and> or_str (arg_cancel a) None = None
      \<and> discover (gamma_reply w) (now w) = (Some mkt, None)
      \<and> seconds_remaining mkt < min_time_remaining cfg"
  then show "run cfg w a = ([Discover], WindowTooShort (seconds_remaining mkt) (min_time_remaining cfg))"
    by (simp add: run_def or_str_def)
  from h show "run cfg w (a\<lparr>arg_force := True\<rparr>) = run cfg w a"
    by (simp add: run_def or_str_def)
next
  assume h: "run cfg w (a\<lparr>arg_force := False\<rparr>) = (evs, out) \<and> out \<noteq> SlippageBlocked"
  show "run cfg w (a\<lparr>arg_force := True\<rparr>) = (evs, out)"
  proof (cases "discover (gamma_reply w) (now w)")
    case (Pair res err)
    show ?thesis
    proof (cases "\<exists>mkt. res = Some mkt \<and> or_str err None = None \<and> \<not> arg_config a \<and> \<not> arg_orders a
        \<and> or_str (arg_cancel a) None = None \<and> \<not> seconds_remaining mkt < min_time_remaining cfg")
      case False
      then show ?thesis using h Pair
        by (auto simp: run_def split: sum.splits option.splits if_splits)
    next
      case True
      then obtain mkt where m: "res = Some mkt" "or_str err None = None" "\<not> arg_config a" "\<not> arg_orders a"
        "or_str (arg_cancel a) None = None" "\<not> seconds_remaining mkt < min_time_remaining cfg"
        by blast
      obtain evs' out' where p: "price_and_trade cfg w (a\<lparr>arg_force := False\<rparr>) mkt = (evs', out')"
        by (cases "price_and_trade cfg w (a\<lparr>arg_force := False\<rparr>) mkt")
      have eo: "evs = Discover # evs'" "out = out'"
        using h Pair m p by (simp_all add: run_def)
      then have "out' \<noteq> SlippageBlocked" using h by simp
      from price_and_trade_force [OF p this] show ?thesis
        using Pair m eo by (simp add: run_def)
    qed
  qed
qed


theorem window_gate_witness:
  "run default_config closing_world plain_args = ([Discover], WindowTooShort 10 30)
   \<and> run default_config closing_world (plain_args\<lparr>arg_force := True\<rparr>)
       = ([Discover], WindowTooShort 10 30)
   \<and> run default_config open_world (plain_args\<lparr>arg_size := Some 20, arg_force := False\<rparr>)
       = ([Discover, FetchBook ''123''], DryRun)
   \<and> run default_config open_world (plain_args\<lparr>arg_size := Some 20, arg_force := True\<rparr>)
       = ([Discover, FetchBook ''123''], DryRun)
   \<and> run default_config open_world plain_args = ([Discover, FetchBook ''123''], SlippageBlocked)
   \<and> run default_config open_world (plain_args\<lparr>arg_force := True\<rparr>)
       = ([Discover, FetchBook ''123''], DryRun)"
proof -
  let ?m = "\<lparr> win_title = Some ''Bitcoin Price 5 Min: up or down?'', yes_token = ''123'',
            no_token = [], end_time = ''12:05:00 UTC'',
            seconds_remaining = 10, win_liquidity = 1500 \<rparr>"
  have d: "discover (gamma_reply closing_world) (now closing_world) = (Some ?m, None)"
    by (simp add: closing_world_def discover_two_id py_int_def)
  have pre: "\<not> arg_config plain_args \<and> \<not> arg_orders plain_args
      \<and> or_str (arg_cancel plain_args) None = None
      \<and> discover (gamma_reply closing_world) (now closing_world) = (Some ?m, None)
      \<and> seconds_remaining ?m < min_time_remaining default_config"
    using d by (simp add: plain_args_def or_str_def default_config_def)
  have dry: "run default_config open_world (plain_args\<lparr>arg_size := Some 20, arg_force := False\<rparr>)
       = ([Discover, FetchBook ''123''], DryRun)"
    by (simp add: run_def plain_args_def open_world_def discover_two_id py_int_def or_str_def
        price_and_trade_def upper_buy get_or_def or_float_def example_estimate execute_def Let_def)
      (simp add: default_config_def)
  have blk: "run default_config open_world plain_args = ([Discover, FetchBook ''123''], SlippageBlocked)"
    by (simp add: run_def plain_args_def open_world_def discover_two_id py_int_def or_str_def
        price_and_trade_def upper_buy get_or_def or_float_def example_estimate_100 execute_def Let_def)
      (simp add: default_config_def)
  have frc: "run default_config open_world (plain_args\<lparr>arg_force := True\<rparr>)
       = ([Discover, FetchBook ''123''], DryRun)"
    by (simp add: run_def plain_args_def open_world_def discover_two_id py_int_def or_str_def
        price_and_trade_def upper_buy get_or_def or_float_def example_estimate_100 execute_def Let_def)
      (simp add: default_config_def)
  from window_gate [of plain_args closing_world ?m default_config] pre
  have 1: "run default_config closing_world plain_args = ([Discover], WindowTooShort 10 30)"
    "run default_config closing_world (plain_args\<lparr>arg_force := True\<rparr>)
       = ([Discover], WindowTooShort 10 30)"
    by (simp_all add: default_config_def)
  from window_gate [of "plain_args\<lparr>arg_size := Some 20\<rparr>" open_world ?m default_config
      "[Discover, FetchBook ''123'']" DryRun] dry
  have 2: "run default_config open_world (plain_args\<lparr>arg_size := Some 20, arg_force := True\<rparr>)
       = ([Discover, FetchBook ''123''], DryRun)"
    by simp
  show ?thesis using 1 2 dry blk frc by simp
qed


section \<open>Configuration round trip\<close>

lemma split_default_size: "split_eq ''default_size=40'' = Some (''default_size'', ''40'')"
  by simp

lemma schema_default_size:
  "map_of CONFIG_SCHEMA ''default_size''
     = Some \<lparr> dflt = JFloat 25, env_name = ''POLY_DEFAULT_SIZE'', ty = TFloat \<rparr>"
  by (simp add: CONFIG_SCHEMA_def)

lemma collect_updates_unknown:
  assumes "item \<in> set items" "split_eq item = Some (k, v)" "map_of CONFIG_SCHEMA k = None"
  shows "\<exists>t. collect_updates conv items updates = Inl t \<and> t \<noteq> Exit 0"
  using assms(1)
proof (induction items arbitrary: updates)
  case Nil
  then show ?case by simp
next
  case (Cons x items)
  show ?case
  proof (cases "x = item")
    case True
    then show ?thesis using assms(2,3) by simp
  next
    case False
    then have "item \<in> set items" using Cons.prems by simp
    from Cons.IH [OF this] show ?thesis
      by (auto split: option.splits)
  qed
qed

lemma decimal_40: "to_float decimal_conversions ''40'' = Some 40"
  by (simp add: decimal_conversions_def decimal_def digit_val_def)

text \<open>A value the file holds for a setting is loaded as it is, whatever its type.\<close>

lemma map_of_keyed:
  "map_of (map (\<lambda>(k, v). (k, g k v)) xs) k = map_option (g k) (map_of xs k)"
  by (induction xs) auto

lemma load_config_file_value:
  assumes "read_json f k = Some v" "k \<in> set (map fst CONFIG_SCHEMA)"
  shows "load_config conv f env k = Some v"
proof -
  obtain spec where "map_of CONFIG_SCHEMA k = Some spec"
    using assms(2) by (metis map_of_eq_None_iff not_Some_eq set_map)
  then show ?thesis
    by (simp add: load_config_def map_of_keyed load_setting_def assms(1))
qed

text \<open>
  C9. Where \<^verbatim>\<open>float("40")\<close> is 40.0, the update \<^verbatim>\<open>--set default_size=40\<close> ends with
  exit status 0 and leaves a file in which \<open>default_size\<close> is the float 40.0, and loading
  that file gives \<open>default_size\<close> = 40.0 under any environment. An update with an item
  whose key is not one of the six settings leaves the file as it was and does not end
  with exit status 0.
\<close>

theorem config_round_trip:
  "(to_float conv ''40'' = Some 40 \<longrightarrow>
      main_set conv [''default_size=40''] f
        = (Exit 0, Json ((read_json f)(''default_size'' \<mapsto> JFloat 40)))
      \<and> load_config conv (snd (main_set conv [''default_size=40''] f)) env ''default_size''
        = Some (JFloat 40))
   \<and> (item \<in> set items \<and> split_eq item = Some (k, v) \<and> k \<notin> set (map fst CONFIG_SCHEMA) \<longrightarrow>
      snd (main_set conv items f) = f \<and> fst (main_set conv items f) \<noteq> Exit 0)"
proof (intro conjI impI)
  assume c: "to_float conv ''40'' = Some 40"
  have u: "collect_updates conv [''default_size=40''] Map.empty
      = Inr [''default_size'' \<mapsto> JFloat 40]"
    by (simp add: schema_default_size coerce_def c)
  show m: "main_set conv [''default_size=40''] f
        = (Exit 0, Json ((read_json f)(''default_size'' \<mapsto> JFloat 40)))"
    unfolding main_set_def u by (simp add: update_config_def Let_def)
  show "load_config conv (snd (main_set conv [''default_size=40''] f)) env ''default_size''
        = Some (JFloat 40)"
    by (simp add: m load_config_def CONFIG_SCHEMA_def load_setting_def read_json_def)
next
  assume h: "item \<in> set items \<and> split_eq item = Some (k, v) \<and> k \<notin> set (map fst CONFIG_SCHEMA)"
  then have "map_of CONFIG_SCHEMA k = None" by (simp add: map_of_eq_None_iff)
  with h obtain t where t: "collect_updates conv items Map.empty = Inl t" "t \<noteq> Exit 0"
    using collect_updates_unknown by blast
  show "snd (main_set conv items f) = f" by (simp add: main_set_def t)
  show "fst (main_set conv items f) \<noteq> Exit 0" by (simp add: main_set_def t)
qed

theorem config_round_trip_witness:
  "to_float decimal_conversions ''40'' = Some 40
   \<and> main_set decimal_conversions [''default_size=40''] (Json [''order_type'' \<mapsto> JStr ''FOK''])
       = (Exit 0, Json [''order_type'' \<mapsto> JStr ''FOK'', ''default_size'' \<mapsto> JFloat 40])
   \<and> load_config decimal_conversions
         (snd (main_set decimal_conversions [''default_size=40''] (Json [''order_type'' \<mapsto> JStr ''FOK''])))
         Map.empty ''default_size'' = Some (JFloat 40)
   \<and> ''max_size=9'' \<in> set [''default_size=40'', ''max_size=9'']
   \<and> split_eq ''max_size=9'' = Some (''max_size'', ''9'')
   \<and> ''max_size'' \<notin> set (map fst CONFIG_SCHEMA)
   \<and> main_set decimal_conversions [''default_size=40'', ''max_size=9''] Missing = (Exit 1, Missing)"
proof -
  let ?f = "Json [''order_type'' \<mapsto> JStr ''FOK'']"
  let ?items = "[''default_size=40'', ''max_size=9'']"
  have k: "''max_size=9'' \<in> set ?items
     \<and> split_eq ''max_size=9'' = Some (''max_size'', ''9'')
     \<and> ''max_size'' \<notin> set (map fst CONFIG_SCHEMA)"
    by (simp add: CONFIG_SCHEMA_def)
  have e: "fst (main_set decimal_conversions ?items Missing) = Exit 1"
    by (simp add: main_set_def CONFIG_SCHEMA_def coerce_def decimal_40)
  note t1 = config_round_trip [of decimal_conversions ?f Map.empty "''max_size=9''" ?items
      "''max_size''" "''9''"]
  note t2 = config_round_trip [of decimal_conversions Missing Map.empty "''max_size=9''" ?items
      "''max_size''" "''9''"]
  have a: "main_set decimal_conversions [''default_size=40''] ?f
       = (Exit 0, Json [''order_type'' \<mapsto> JStr ''FOK'', ''default_size'' \<mapsto> JFloat 40])"
    using t1 decimal_40 by (simp add: read_json_def)
  have b: "load_config decimal_conversions
         (snd (main_set decimal_conversions [''default_size=40''] ?f))
         Map.empty ''default_size'' = Some (JFloat 40)"
    using t1 decimal_40 by blast
  have c: "snd (main_set decimal_conversions ?items Missing) = Missing"
    using t2 k by blast
  have d: "main_set decimal_conversions ?items Missing = (Exit 1, Missing)"
    using c e by (simp add: prod_eq_iff)
  show ?thesis using decimal_40 a b k d by blast
qed


end
